theory Spec2Isabelle
  imports Complex_Main
begin

section \<open>Gauss-Newton and Levenberg-Marquardt optimizers of pypose/optim/optimizer.py\<close>

text \<open>
  The embedding follows \<^verbatim>\<open>src/pypose/optim/optimizer.py\<close>. Tensor entries are
  real numbers (exact arithmetic stands for the floating-point numbers of the
  program). A tensor is its shape, its strides and its entries in row-major order of the
  indices; the two-dimensional
  tensors of the linear algebra (\<open>E\<close>, \<open>K\<close>, \<open>J\<close>, \<open>A\<close>, \<open>D\<close>) are kept as lists of
  rows with both dimensions explicit. Parameter tensors are shared between the model and
  the parameter groups of the optimizer and are updated in place, so they live in a store
  addressed by natural numbers. Every exception of the program is a value of type
  \<open>error\<close>; a call that raises returns the error together with the store as the
  exception leaves it.
\<close>

subsection \<open>Exceptions\<close>

datatype error =
    ValueError string
  | AssertionError error
  | RuntimeError string
  | TypeError string
  | LinAlgError string

fun is_ValueError :: "error \<Rightarrow> bool" where
  "is_ValueError (ValueError s) = True"
| "is_ValueError e = False"

definition bindE :: "error + 'a \<Rightarrow> ('a \<Rightarrow> error + 'b) \<Rightarrow> error + 'b" where
  "bindE r f = (case r of Inl e \<Rightarrow> Inl e | Inr v \<Rightarrow> f v)"

subsection \<open>Tensors and the parameter store\<close>

record tensor =
  shape :: "nat list"
  strides :: "nat list"
  data :: "real list"
  requires_grad :: bool

type_synonym addr = nat
type_synonym store = "addr \<Rightarrow> tensor"

definition numel :: "tensor \<Rightarrow> nat" where
  "numel t = prod_list (shape t)"

definition wf_tensor :: "tensor \<Rightarrow> bool" where
  "wf_tensor t = (length (data t) = numel t)"

subsection \<open>The layout of a tensor in memory\<close>

text \<open>
  The strides say where the entry of an index lies in the storage of the tensor: a
  transposed or sliced tensor has the entries of its index order in \<open>data\<close> and strides
  that are not those of the row-major layout. The strides decide whether \<^verbatim>\<open>view\<close>
  succeeds, and the layout of the result of an elementwise operation.
\<close>

text \<open>The strides of a freshly allocated tensor of a shape: the row-major layout.\<close>

fun contiguous_strides :: "nat list \<Rightarrow> nat list" where
  "contiguous_strides [] = []"
| "contiguous_strides (s # S) = prod_list (map (max 1) S) # contiguous_strides S"

text \<open>
  \<^verbatim>\<open>t.is_contiguous()\<close>: from the last dimension to the first, every dimension of a size
  other than 1 has the stride of the row-major layout; a tensor without entries is
  contiguous. The list holds the pairs of size and stride, the last dimension first.
\<close>

fun contiguous_from :: "nat \<Rightarrow> (nat \<times> nat) list \<Rightarrow> bool" where
  "contiguous_from z [] = True"
| "contiguous_from z ((s, st) # ds) =
     (if s = 1 then contiguous_from z ds else st = z \<and> contiguous_from (z * s) ds)"

definition is_contiguous :: "tensor \<Rightarrow> bool" where
  "is_contiguous t = (numel t = 0 \<or> contiguous_from 1 (rev (zip (shape t) (strides t))))"

text \<open>
  A tensor is non-overlapping and dense when its dimensions of size 2 or more, ordered by
  their strides, fill the storage without gaps. The list holds the pairs of stride and
  size.
\<close>

fun dense_from :: "nat \<Rightarrow> (nat \<times> nat) list \<Rightarrow> bool" where
  "dense_from r [] = True"
| "dense_from r ((st, s) # ds) = (st = r \<and> dense_from (r * s) ds)"

definition is_non_overlapping_and_dense :: "tensor \<Rightarrow> bool" where
  "is_non_overlapping_and_dense t =
     dense_from 1 (sort_key fst (filter (\<lambda>(st, s). 2 \<le> s) (zip (strides t) (shape t))))"

text \<open>
  \<^verbatim>\<open>t.view(new)\<close> for a shape \<open>new\<close> of as many entries as \<open>t\<close> has: the dimensions of \<open>t\<close>
  are cut, from the last to the first, into chunks that are contiguous in memory, and
  every chunk must be filled exactly by dimensions of the new shape. \<open>view_dims tn vn vs\<close>
  takes dimensions of the new shape (\<open>vs\<close>, the last first) as long as the chunk of \<open>tn\<close>
  entries is not filled or the dimension has size 1; \<open>view_chunks base tn vn ds vs\<close> runs
  through the dimensions of \<open>t\<close> (\<open>ds\<close>, pairs of size and stride, the last first), where
  \<open>base\<close> is the stride of the last dimension of the current chunk, \<open>tn\<close> the number of
  entries of the chunk so far and \<open>vn\<close> the number of entries of the new dimensions taken
  for it.
\<close>

fun view_dims :: "nat \<Rightarrow> nat \<Rightarrow> nat list \<Rightarrow> nat \<times> nat list" where
  "view_dims tn vn [] = (vn, [])"
| "view_dims tn vn (v # vs) =
     (if vn < tn \<or> v = 1 then view_dims tn (vn * v) vs else (vn, v # vs))"

fun view_chunks :: "nat \<Rightarrow> nat \<Rightarrow> nat \<Rightarrow> (nat \<times> nat) list \<Rightarrow> nat list \<Rightarrow> bool" where
  "view_chunks base tn vn [] vs = (vs = [])"
| "view_chunks base tn vn [(s, st)] vs =
     (case view_dims (tn * s) vn vs of (vn', vs') \<Rightarrow> vn' = tn * s \<and> vs' = [])"
| "view_chunks base tn vn ((s, st) # (s', st') # ds) vs =
     (if s' \<noteq> 1 \<and> st' \<noteq> tn * s * base
      then (case view_dims (tn * s) vn vs of
              (vn', vs') \<Rightarrow> vn' = tn * s \<and> view_chunks st' 1 1 ((s', st') # ds) vs')
      else view_chunks base (tn * s) vn ((s', st') # ds) vs)"

definition view_ok :: "tensor \<Rightarrow> nat list \<Rightarrow> bool" where
  "view_ok t new =
     (shape t = [] \<or> numel t = 0 \<or>
      view_chunks (last (strides t)) 1 1 (rev (zip (shape t) (strides t))) (rev new))"

text \<open>Whether \<^verbatim>\<open>t.view(-1, 1)\<close> succeeds: the new shape is \<open>[numel t, 1]\<close>.\<close>

definition flat_viewable :: "tensor \<Rightarrow> bool" where
  "flat_viewable t = view_ok t [numel t, 1]"

text \<open>
  The strides of the result of an elementwise operation on \<open>t\<close> and \<open>u\<close>, of the broadcast
  shape \<open>S\<close>. When both operands have the shape \<open>S\<close> and are contiguous the result is
  contiguous; when both have the shape \<open>S\<close>, are non-overlapping and dense and have the
  same strides, the result has their strides. Otherwise the dimensions are ordered by the
  strides of the operands, the first operand first, and the result is dense in that
  order: \<open>operand_strides\<close> gives the strides of an operand in the dimensions of \<open>S\<close> (0
  where it is broadcast), \<open>should_swap\<close> compares two dimensions, \<open>insert_dim\<close> and
  \<open>sort_dims\<close> are the insertion sort of the dimensions, which starts from the last
  dimension first, and \<open>dimension_order\<close> is its result, the dimension of the smallest
  stride first. (For two operands in the channels-last format the library has one more
  shortcut, which puts the dimensions in the order that this ordering gives.)
\<close>

definition operand_strides :: "nat list \<Rightarrow> tensor \<Rightarrow> nat list" where
  "operand_strides S t =
     (let k = length S - length (shape t) in
      replicate k 0 @
      map (\<lambda>(D, d, st). if d = 1 \<and> D \<noteq> 1 then 0 else st)
          (zip (drop k S) (zip (shape t) (strides t))))"

fun should_swap :: "nat list \<Rightarrow> nat list list \<Rightarrow> nat \<Rightarrow> nat \<Rightarrow> int" where
  "should_swap S [] d0 d1 = 0"
| "should_swap S (st # sts) d0 d1 =
     (if st ! d0 = 0 \<or> st ! d1 = 0 then should_swap S sts d0 d1
      else if st ! d0 < st ! d1 then - 1
      else if st ! d1 < st ! d0 then 1
      else if S ! d1 < S ! d0 then 1
      else should_swap S sts d0 d1)"

text \<open>
  \<open>insert_dim sw left mid x right\<close>: the dimension \<open>x\<close> moves towards the front of the
  order. \<open>left\<close> holds the dimensions before it that are still to be compared (the nearest
  first), \<open>mid\<close> those it was compared with without a decision, \<open>right\<close> those behind it. A
  dimension that must come after \<open>x\<close> changes places with \<open>x\<close>.
\<close>

fun insert_dim :: "(nat \<Rightarrow> nat \<Rightarrow> int) \<Rightarrow> nat list \<Rightarrow> nat list \<Rightarrow> nat \<Rightarrow> nat list \<Rightarrow> nat list" where
  "insert_dim sw [] mid x right = mid @ x # right"
| "insert_dim sw (p # left) mid x right =
     (if 0 < sw p x then insert_dim sw left [] x (mid @ p # right)
      else if sw p x < 0 then rev (p # left) @ mid @ x # right
      else insert_dim sw left (p # mid) x right)"

fun sort_dims :: "(nat \<Rightarrow> nat \<Rightarrow> int) \<Rightarrow> nat list \<Rightarrow> nat list \<Rightarrow> nat list" where
  "sort_dims sw pre [] = pre"
| "sort_dims sw pre (x # xs) = sort_dims sw (insert_dim sw (rev pre) [] x []) xs"

definition dimension_order :: "nat list \<Rightarrow> nat list list \<Rightarrow> nat list" where
  "dimension_order S sts =
     (case rev [0..<length S] of [] \<Rightarrow> [] | d # ds \<Rightarrow> sort_dims (should_swap S sts) [d] ds)"

definition result_strides :: "nat list \<Rightarrow> tensor \<Rightarrow> tensor \<Rightarrow> nat list" where
  "result_strides S t u =
     (if shape t = S \<and> shape u = S \<and> is_contiguous t \<and> is_contiguous u
      then contiguous_strides S
      else if shape t = S \<and> shape u = S \<and> is_non_overlapping_and_dense t \<and>
              is_non_overlapping_and_dense u \<and> strides t = strides u
      then strides t
      else let perm = dimension_order S [operand_strides S t, operand_strides S u] in
           if perm = rev [0..<length S] then contiguous_strides S
           else map (\<lambda>d. prod_list (map ((!) S) (takeWhile (\<lambda>e. e \<noteq> d) perm)))
                    [0..<length S])"

subsection \<open>Model outputs and targets\<close>

text \<open>A model output, and a \<open>targets\<close> argument: one tensor or a tuple of tensors.\<close>

datatype pyval = Single tensor | Tuple "tensor list"

subsection \<open>Kernels and models\<close>

text \<open>
  A robust kernel is a function on the flattened tensor it is applied to, together with the
  derivative that \<^verbatim>\<open>torch.autograd.functional.jacobian\<close> computes for the sum of its
  entries: \<open>drho x i\<close> is the derivative of \<open>sum (rho x)\<close> in the \<open>i\<close>-th entry of \<open>x\<close>.
\<close>

record kernel =
  rho :: "real list \<Rightarrow> real list"
  drho :: "real list \<Rightarrow> nat \<Rightarrow> real"

text \<open>\<^verbatim>\<open>lambda x: x\<close>, the default kernel.\<close>

definition identity_kernel :: kernel where
  "identity_kernel = \<lparr>rho = (\<lambda>x. x), drho = (\<lambda>x i. 1)\<rparr>"

text \<open>
  A model: its parameters in the order of \<^verbatim>\<open>model.parameters()\<close>, its forward function on
  the current parameter tensors and the inputs, and the derivative that automatic
  differentiation computes: \<open>partial \<theta> x i k e\<close> is the derivative of the \<open>i\<close>-th entry of
  the flattened output in the \<open>e\<close>-th entry of the \<open>k\<close>-th parameter.
\<close>

record 'x model =
  parameters :: "addr list"
  forward :: "tensor list \<Rightarrow> 'x \<Rightarrow> pyval"
  partial :: "tensor list \<Rightarrow> 'x \<Rightarrow> nat \<Rightarrow> nat \<Rightarrow> nat \<Rightarrow> real"

subsection \<open>Two-dimensional tensors\<close>

record mat =
  nrows :: nat
  ncols :: nat
  entries :: "real list list"

definition wf_mat :: "mat \<Rightarrow> bool" where
  "wf_mat A = (length (entries A) = nrows A \<and> list_all (\<lambda>r. length r = ncols A) (entries A))"

definition is_zero :: "mat \<Rightarrow> bool" where
  "is_zero A = list_all (list_all (\<lambda>v. v = 0)) (entries A)"

definition column :: "mat \<Rightarrow> nat \<Rightarrow> real list" where
  "column A j = map (\<lambda>r. r ! j) (entries A)"

definition dot :: "real list \<Rightarrow> real list \<Rightarrow> real" where
  "dot u v = sum_list (map2 (*) u v)"

text \<open>\<^verbatim>\<open>A.T\<close>\<close>

definition transpose_mat :: "mat \<Rightarrow> mat" where
  "transpose_mat A =
     \<lparr>nrows = ncols A, ncols = nrows A, entries = map (column A) [0..<ncols A]\<rparr>"

text \<open>\<^verbatim>\<open>A @ B\<close>: the inner dimensions must agree.\<close>

definition matmul :: "mat \<Rightarrow> mat \<Rightarrow> error + mat" where
  "matmul A B =
     (if ncols A = nrows B
      then Inr \<lparr>nrows = nrows A, ncols = ncols B,
                entries = map (\<lambda>r. map (\<lambda>j. dot r (column B j)) [0..<ncols B]) (entries A)\<rparr>
      else Inl (RuntimeError ''mat1 and mat2 shapes cannot be multiplied''))"

text \<open>
  \<^verbatim>\<open>A * B\<close> on two-dimensional tensors: elementwise, with broadcasting. Two sizes of a
  dimension are compatible when they are equal or one of them is 1; the tensor of size 1
  is repeated along that dimension.
\<close>

definition bdim :: "nat \<Rightarrow> nat \<Rightarrow> nat option" where
  "bdim a b = (if a = b then Some a else if a = 1 then Some b else if b = 1 then Some a else None)"

definition bentry :: "mat \<Rightarrow> nat \<Rightarrow> nat \<Rightarrow> real" where
  "bentry A i j = entries A ! (if nrows A = 1 then 0 else i) ! (if ncols A = 1 then 0 else j)"

definition bmul :: "mat \<Rightarrow> mat \<Rightarrow> error + mat" where
  "bmul A B =
     (case (bdim (nrows A) (nrows B), bdim (ncols A) (ncols B)) of
        (Some r, Some c) \<Rightarrow>
          Inr \<lparr>nrows = r, ncols = c,
               entries = map (\<lambda>i. map (\<lambda>j. bentry A i j * bentry B i j) [0..<c]) [0..<r]\<rparr>
      | _ \<Rightarrow> Inl (RuntimeError ''The size of tensor a must match the size of tensor b''))"

text \<open>\<^verbatim>\<open>E**2\<close> and unary minus\<close>

definition square_mat :: "mat \<Rightarrow> mat" where
  "square_mat A = A\<lparr>entries := map (map (\<lambda>v. v * v)) (entries A)\<rparr>"

definition neg_mat :: "mat \<Rightarrow> mat" where
  "neg_mat A = A\<lparr>entries := map (map uminus) (entries A)\<rparr>"

text \<open>
  \<^verbatim>\<open>t.view(-1, 1)\<close>: the entries of \<open>t\<close> as one column, in the order of the indices. It
  raises when the strides of \<open>t\<close> do not allow the view.
\<close>

definition column_of :: "tensor \<Rightarrow> mat" where
  "column_of t = \<lparr>nrows = numel t, ncols = 1, entries = map (\<lambda>v. [v]) (data t)\<rparr>"

definition view_col :: "tensor \<Rightarrow> error + mat" where
  "view_col t =
     (if flat_viewable t then Inr (column_of t)
      else Inl (RuntimeError ''view size is not compatible with input tensor size and stride''))"

text \<open>
  \<^verbatim>\<open>torch.cat\<close> along dimension 0: the list must not be empty and the tensors must agree
  in their number of columns.
\<close>

definition cat :: "mat list \<Rightarrow> error + mat" where
  "cat ms =
     (case ms of
        [] \<Rightarrow> Inl (RuntimeError ''torch.cat(): expected a non-empty list of Tensors'')
      | m # _ \<Rightarrow>
          if list_all (\<lambda>m'. ncols m' = ncols m) ms
          then Inr \<lparr>nrows = sum_list (map nrows ms), ncols = ncols m,
                    entries = concat (map entries ms)\<rparr>
          else Inl (RuntimeError ''Sizes of tensors must match except in dimension 0''))"

subsection \<open>Subtraction of tensors\<close>

text \<open>
  \<^verbatim>\<open>t - u\<close> broadcasts: the shapes are aligned at their last dimension, a missing
  dimension counts as 1, and sizes must be compatible as for \<open>bdim\<close>. The result is a
  new tensor, laid out as \<open>result_strides\<close> says.
\<close>

fun bshape_rev :: "nat list \<Rightarrow> nat list \<Rightarrow> nat list option" where
  "bshape_rev [] ys = Some ys"
| "bshape_rev (x # xs) [] = Some (x # xs)"
| "bshape_rev (x # xs) (y # ys) =
     (case bdim x y of None \<Rightarrow> None | Some d \<Rightarrow> map_option ((#) d) (bshape_rev xs ys))"

definition broadcast_shape :: "nat list \<Rightarrow> nat list \<Rightarrow> nat list option" where
  "broadcast_shape s1 s2 = map_option rev (bshape_rev (rev s1) (rev s2))"

definition chunk :: "nat \<Rightarrow> real list \<Rightarrow> nat \<Rightarrow> real list" where
  "chunk n xs i = take n (drop (i * n) xs)"

text \<open>
  \<open>expand s S xs\<close>: the row-major entries \<open>xs\<close> of a tensor of shape \<open>s\<close>, repeated to
  the shape \<open>S\<close> (of the same length, each size of \<open>s\<close> equal to that of \<open>S\<close> or 1).
\<close>

fun expand :: "nat list \<Rightarrow> nat list \<Rightarrow> real list \<Rightarrow> real list" where
  "expand (d # ds) (D # Ds) xs =
     (let es = concat (map (\<lambda>i. expand ds Ds (chunk (prod_list ds) xs i)) [0..<d])
      in if d = D then es else concat (replicate D es))"
| "expand ds Ds xs = xs"

definition pad_shape :: "nat list \<Rightarrow> nat list \<Rightarrow> nat list" where
  "pad_shape S s = replicate (length S - length s) 1 @ s"

definition tsub :: "tensor \<Rightarrow> tensor \<Rightarrow> error + tensor" where
  "tsub t u =
     (case broadcast_shape (shape t) (shape u) of
        None \<Rightarrow> Inl (RuntimeError ''The size of tensor a must match the size of tensor b'')
      | Some S \<Rightarrow>
          Inr \<lparr>shape = S, strides = result_strides S t u,
               data = map2 (-) (expand (pad_shape S (shape t)) S (data t))
                               (expand (pad_shape S (shape u)) S (data u)),
               requires_grad = False\<rparr>)"

text \<open>
  Iterating a \<open>targets\<close> argument, as \<^verbatim>\<open>zip(targets, outputs)\<close> does: a tuple gives its
  elements, a tensor its slices along dimension 0, and a tensor without dimensions
  cannot be iterated.
\<close>

definition py_iter :: "pyval \<Rightarrow> error + tensor list" where
  "py_iter v =
     (case v of
        Tuple ts \<Rightarrow> Inr ts
      | Single t \<Rightarrow>
          (case shape t of
             [] \<Rightarrow> Inl (TypeError ''iteration over a 0-d tensor'')
           | d # ds \<Rightarrow>
               Inr (map (\<lambda>i. \<lparr>shape = ds, strides = tl (strides t),
                               data = chunk (prod_list ds) (data t) i,
                               requires_grad = requires_grad t\<rparr>) [0..<d])))"

subsection \<open>The residual\<close>

text \<open>
  \<^verbatim>\<open>[(t - o).view(-1, 1) for t, o in pairs]\<close> and \<^verbatim>\<open>[-o.view(-1, 1) for o in outputs]\<close>:
  the first subtraction or view that fails raises.
\<close>

fun sub_cols :: "(tensor \<times> tensor) list \<Rightarrow> error + mat list" where
  "sub_cols [] = Inr []"
| "sub_cols ((t, u) # ps) =
     bindE (tsub t u) (\<lambda>d. bindE (view_col d) (\<lambda>c. bindE (sub_cols ps) (\<lambda>ms. Inr (c # ms))))"

fun neg_cols :: "tensor list \<Rightarrow> error + mat list" where
  "neg_cols [] = Inr []"
| "neg_cols (u # us) =
     bindE (view_col u) (\<lambda>c. bindE (neg_cols us) (\<lambda>ms. Inr (neg_mat c # ms)))"

definition residual :: "'x model \<Rightarrow> store \<Rightarrow> 'x \<Rightarrow> pyval option \<Rightarrow> error + mat" where
  "residual m \<sigma> x targets =
     (let outputs = forward m (map \<sigma> (parameters m)) x in
      case targets of
        Some tg \<Rightarrow>
          (case outputs of
             Tuple us \<Rightarrow>
               bindE (py_iter tg) (\<lambda>ts. bindE (sub_cols (zip ts us)) cat)
           | Single u \<Rightarrow>
               (case tg of
                  Single t \<Rightarrow> bindE (tsub t u) view_col
                | Tuple ts \<Rightarrow>
                    Inl (TypeError ''unsupported operand type(s) for -: tuple and Tensor'')))
      | None \<Rightarrow>
          (case outputs of
             Tuple us \<Rightarrow> bindE (neg_cols us) cat
           | Single u \<Rightarrow> bindE (view_col u) (\<lambda>c. Inr (neg_mat c))))"

text \<open>
  \<^verbatim>\<open>K = jacobian(lambda x: self.kernel(x).sum(), E**2)\<close>: a tensor of the shape of \<open>E\<close>,
  and the loss \<^verbatim>\<open>self.kernel(E**2).sum()\<close>.
\<close>

definition kernel_weight :: "kernel \<Rightarrow> mat \<Rightarrow> mat" where
  "kernel_weight k E =
     (let x = concat (entries (square_mat E)) in
      \<lparr>nrows = nrows E, ncols = ncols E,
       entries = map (\<lambda>i. map (\<lambda>j. drho k x (i * ncols E + j)) [0..<ncols E]) [0..<nrows E]\<rparr>)"

definition loss :: "kernel \<Rightarrow> mat \<Rightarrow> real" where
  "loss k E = sum_list (rho k (concat (entries (square_mat E))))"

subsection \<open>The Jacobian of the model\<close>

definition out_numel :: "pyval \<Rightarrow> nat" where
  "out_numel v = (case v of Single t \<Rightarrow> numel t | Tuple ts \<Rightarrow> sum_list (map numel ts))"

text \<open>
  Modelled from the spec: \<^verbatim>\<open>modjac\<close> of \<^verbatim>\<open>pypose/optim/functional.py\<close>, which is not
  among the sources. The optimizer calls it as \<^verbatim>\<open>modjac(self.model, inputs, flatten=True)\<close>:
  it receives the model and the inputs, and nothing of the parameter group. By
  the specification it returns the \<open>M \<times> N\<close> matrix of the derivatives of the flattened
  output in the trainable parameter entries, the columns in the order of the
  parameters; a frozen parameter has no column.
\<close>

definition modjac :: "'x model \<Rightarrow> store \<Rightarrow> 'x \<Rightarrow> mat" where
  "modjac m \<sigma> x =
     (let \<theta> = map \<sigma> (parameters m); M = out_numel (forward m \<theta> x) in
      \<lparr>nrows = M, ncols = sum_list (map numel (filter requires_grad \<theta>)),
       entries =
         map (\<lambda>i. concat (map (\<lambda>k. if requires_grad (\<theta> ! k)
                                     then map (partial m \<theta> x i k) [0..<numel (\<theta> ! k)]
                                     else []) [0..<length \<theta>])) [0..<M]\<rparr>)"

subsection \<open>Linear solvers\<close>

text \<open>
  \<^verbatim>\<open>torch.linalg.cholesky\<close>: the lower-triangular factor, computed row by row from the
  lower triangle of the matrix; it fails when a pivot is not positive, that is, when
  the matrix is not positive definite.
\<close>

fun chol_row :: "real list \<Rightarrow> real list list \<Rightarrow> real list \<Rightarrow> real list" where
  "chol_row a [] l = l"
| "chol_row a (lj # ls) l = chol_row a ls (l @ [(a ! length l - dot l lj) / lj ! length l])"

fun chol_rows :: "real list list \<Rightarrow> real list list \<Rightarrow> error + real list list" where
  "chol_rows [] ls = Inr ls"
| "chol_rows (a # as) ls =
     (let l = chol_row a ls []; d = a ! length ls - dot l l in
      if d \<le> 0
      then Inl (LinAlgError ''linalg.cholesky: the input is not positive-definite'')
      else chol_rows as (ls @ [l @ [sqrt d]]))"

definition cholesky :: "mat \<Rightarrow> error + mat" where
  "cholesky A =
     (if nrows A \<noteq> ncols A
      then Inl (RuntimeError ''linalg.cholesky: A must be batches of square matrices'')
      else bindE (chol_rows (entries A) [])
             (\<lambda>ls. Inr \<lparr>nrows = nrows A, ncols = ncols A,
                        entries = map (\<lambda>l. l @ replicate (ncols A - length l) 0) ls\<rparr>))"

text \<open>
  \<^verbatim>\<open>b.cholesky_solve(L)\<close>: the solution of \<open>(L L\<^sup>T) x = b\<close> for each column of \<open>b\<close>, by
  forward substitution with \<open>L\<close> and back substitution with its transpose.
\<close>

fun forward_subst :: "real list list \<Rightarrow> real list \<Rightarrow> real list \<Rightarrow> real list" where
  "forward_subst (l # ls) (b # bs) y = forward_subst ls bs (y @ [(b - dot y l) / l ! length y])"
| "forward_subst ls bs y = y"

definition back_subst :: "real list list \<Rightarrow> real list \<Rightarrow> real list" where
  "back_subst us y = rev (forward_subst (map rev (rev us)) (rev y) [])"

definition cholesky_solve :: "mat \<Rightarrow> mat \<Rightarrow> error + mat" where
  "cholesky_solve b L =
     (if nrows L = ncols L \<and> nrows b = nrows L
      then Inr (transpose_mat
             \<lparr>nrows = ncols b, ncols = nrows b,
              entries = map (\<lambda>c. back_subst (entries (transpose_mat L))
                                   (forward_subst (entries L) c []))
                          (entries (transpose_mat b))\<rparr>)
      else Inl (RuntimeError ''cholesky_solve: incompatible shapes''))"

text \<open>
  \<^verbatim>\<open>torch.pinverse\<close> and \<^verbatim>\<open>torch.linalg.lstsq\<close> are numerical routines of the library;
  the optimizer is parametrised by them. The routine gives the entries, or raises;
  the shape of the result is the one the library documents.
\<close>

record linalg =
  pinverse_entries :: "mat \<Rightarrow> error + (nat \<Rightarrow> nat \<Rightarrow> real)"
  lstsq_entries :: "mat \<Rightarrow> mat \<Rightarrow> real option \<Rightarrow> string option \<Rightarrow> error + (nat \<Rightarrow> nat \<Rightarrow> real)"

definition tabulate :: "nat \<Rightarrow> nat \<Rightarrow> (nat \<Rightarrow> nat \<Rightarrow> real) \<Rightarrow> mat" where
  "tabulate r c f = \<lparr>nrows = r, ncols = c, entries = map (\<lambda>i. map (f i) [0..<c]) [0..<r]\<rparr>"

definition pinverse :: "linalg \<Rightarrow> mat \<Rightarrow> error + mat" where
  "pinverse la A = bindE (pinverse_entries la A) (\<lambda>f. Inr (tabulate (ncols A) (nrows A) f))"

definition lstsq :: "linalg \<Rightarrow> mat \<Rightarrow> mat \<Rightarrow> real option \<Rightarrow> string option \<Rightarrow> error + mat" where
  "lstsq la A B rc dr =
     (if nrows A \<noteq> nrows B
      then Inl (RuntimeError ''linalg.lstsq: input.size(-2) should match other.size(-2)'')
      else bindE (lstsq_entries la A B rc dr) (\<lambda>f. Inr (tabulate (ncols A) (ncols B) f)))"

subsection \<open>Construction of the Levenberg-Marquardt optimizer\<close>

record 'o param_group =
  params :: "addr list"
  options :: 'o

record lm_options =
  damping :: real
  clamp_min :: real
  clamp_max :: real

record 'x levenberg_marquardt =
  lm_model :: "'x model"
  lm_kernel :: kernel
  lm_param_groups :: "lm_options param_group list"

text \<open>
  \<^verbatim>\<open>Optimizer.__init__(params, defaults)\<close> of torch, for an iterable of tensors: an empty
  parameter list is refused, otherwise the tensors form one parameter group that takes
  the defaults.
\<close>

definition Optimizer_init :: "addr list \<Rightarrow> 'o \<Rightarrow> error + 'o param_group list" where
  "Optimizer_init ps defaults =
     (if ps = [] then Inl (ValueError ''optimizer got an empty parameter list'')
      else Inr [\<lparr>params = ps, options = defaults\<rparr>])"

text \<open>
  \<^verbatim>\<open>LevenbergMarquardt.__init__(self, model, damping, kernel=None, min=1e-6, max=1e32)\<close>.
  The statement \<^verbatim>\<open>assert damping > 0, ValueError(...)\<close> raises \<^verbatim>\<open>AssertionError\<close> with the
  \<^verbatim>\<open>ValueError\<close> object as its argument.
\<close>

definition LevenbergMarquardt_init ::
  "'x model \<Rightarrow> real \<Rightarrow> kernel option \<Rightarrow> real \<Rightarrow> real \<Rightarrow> error + 'x levenberg_marquardt" where
  "LevenbergMarquardt_init m dmp krn mn mx =
     (let k = (case krn of Some k' \<Rightarrow> k' | None \<Rightarrow> identity_kernel) in
      if \<not> dmp > 0 then Inl (AssertionError (ValueError ''Invalid damping factor''))
      else bindE (Optimizer_init (parameters m) \<lparr>damping = dmp, clamp_min = mn, clamp_max = mx\<rparr>)
             (\<lambda>gs. Inr \<lparr>lm_model = m, lm_kernel = k, lm_param_groups = gs\<rparr>))"

subsection \<open>Construction of the Gauss-Newton optimizer\<close>

record gn_options =
  rcond :: "real option"
  driver :: "string option"

record 'x gauss_newton =
  gn_model :: "'x model"
  gn_kernel :: kernel
  gn_fast :: bool
  gn_param_groups :: "gn_options param_group list"

text \<open>\<^verbatim>\<open>GaussNewton.__init__(self, model, kernel=None, fast=False, rcond=None, driver=None)\<close>\<close>

definition GaussNewton_init ::
  "'x model \<Rightarrow> kernel option \<Rightarrow> bool \<Rightarrow> real option \<Rightarrow> string option \<Rightarrow> error + 'x gauss_newton" where
  "GaussNewton_init m krn fast rc dr =
     (let k = (case krn of Some k' \<Rightarrow> k' | None \<Rightarrow> identity_kernel) in
      bindE (Optimizer_init (parameters m) \<lparr>rcond = rc, driver = dr\<rparr>)
        (\<lambda>gs. Inr \<lparr>gn_model = m, gn_kernel = k, gn_fast = fast, gn_param_groups = gs\<rparr>))"

subsection \<open>The normal equations\<close>

text \<open>\<^verbatim>\<open>K.T * J.T @ E\<close>: the operators \<^verbatim>\<open>*\<close> and \<^verbatim>\<open>@\<close> associate to the left.\<close>

definition weighted_gradient :: "mat \<Rightarrow> mat \<Rightarrow> mat \<Rightarrow> error + mat" where
  "weighted_gradient J K E =
     bindE (bmul (transpose_mat K) (transpose_mat J)) (\<lambda>W. matmul W E)"

text \<open>\<^verbatim>\<open>x.clamp(min, max)\<close> is \<^verbatim>\<open>min(max(x, min), max)\<close>.\<close>

definition clamp :: "real \<Rightarrow> real \<Rightarrow> real \<Rightarrow> real" where
  "clamp v lo hi = min (max v lo) hi"

definition diagonal :: "mat \<Rightarrow> real list" where
  "diagonal A = map (\<lambda>i. entries A ! i ! i) [0..<min (nrows A) (ncols A)]"

text \<open>\<^verbatim>\<open>A.diagonal().add_(ds)\<close> writes through the view of the diagonal into \<open>A\<close>.\<close>

definition diagonal_add :: "mat \<Rightarrow> real list \<Rightarrow> mat" where
  "diagonal_add A ds =
     A\<lparr>entries := map (\<lambda>i. if i < length ds
                             then (entries A ! i)[i := entries A ! i ! i + ds ! i]
                             else entries A ! i) [0..<length (entries A)]\<rparr>"

text \<open>
  Lines 274 and 275 of \<^verbatim>\<open>LevenbergMarquardt.step\<close>:
  \<^verbatim>\<open>A = J.T @ J\<close> and
  \<^verbatim>\<open>A.diagonal().add_(pg['damping'] * A.diagonal().clamp(pg['min'], pg['max']))\<close>.
\<close>

definition lm_matrix :: "lm_options \<Rightarrow> mat \<Rightarrow> error + mat" where
  "lm_matrix opts J =
     bindE (matmul (transpose_mat J) J)
       (\<lambda>A. Inr (diagonal_add A
                   (map (\<lambda>d. damping opts * clamp d (clamp_min opts) (clamp_max opts))
                        (diagonal A))))"

text \<open>Line 276: \<^verbatim>\<open>D = (K.T * J.T @ E).cholesky_solve(torch.linalg.cholesky(A))\<close>\<close>

definition lm_solve :: "lm_options \<Rightarrow> mat \<Rightarrow> mat \<Rightarrow> mat \<Rightarrow> error + mat" where
  "lm_solve opts J K E =
     bindE (lm_matrix opts J)
       (\<lambda>A. bindE (weighted_gradient J K E)
          (\<lambda>b. bindE (cholesky A) (\<lambda>L. cholesky_solve b L)))"

text \<open>
  Lines 139 to 142 of \<^verbatim>\<open>GaussNewton.step\<close>:
  \<^verbatim>\<open>lstsq(J.T @ J, K.T * J.T @ E, rcond=pg['rcond'], driver=pg['driver']).solution\<close> when
  \<^verbatim>\<open>self.fast\<close>, and \<^verbatim>\<open>(J.T @ J).pinverse() @ (K.T * J.T @ E)\<close> otherwise.
\<close>

definition gn_solve :: "linalg \<Rightarrow> bool \<Rightarrow> gn_options \<Rightarrow> mat \<Rightarrow> mat \<Rightarrow> mat \<Rightarrow> error + mat" where
  "gn_solve la fast opts J K E =
     (if fast
      then bindE (matmul (transpose_mat J) J)
             (\<lambda>A. bindE (weighted_gradient J K E)
                (\<lambda>b. lstsq la A b (rcond opts) (driver opts)))
      else bindE (matmul (transpose_mat J) J)
             (\<lambda>A. bindE (pinverse la A)
                (\<lambda>P. bindE (weighted_gradient J K E) (\<lambda>b. matmul P b))))"

subsection \<open>The update of the parameters\<close>

text \<open>\<^verbatim>\<open>numels = [p.numel() for p in pg['params'] if p.requires_grad]\<close>\<close>

definition numels :: "store \<Rightarrow> addr list \<Rightarrow> nat list" where
  "numels \<sigma> ps = map numel (filter requires_grad (map \<sigma> ps))"

text \<open>
  \<^verbatim>\<open>torch.split(D, numels)\<close> cuts \<open>D\<close> along dimension 0 into pieces of the given sizes,
  which must sum to the number of rows of \<open>D\<close>.
\<close>

fun split_rows :: "real list list \<Rightarrow> nat list \<Rightarrow> real list list list" where
  "split_rows rs [] = []"
| "split_rows rs (n # ns) = take n rs # split_rows (drop n rs) ns"

definition torch_split :: "mat \<Rightarrow> nat list \<Rightarrow> error + mat list" where
  "torch_split D ns =
     (if sum_list ns \<noteq> nrows D
      then Inl (RuntimeError ''split_with_sizes expects split_sizes to sum exactly to the size'')
      else Inr (map2 (\<lambda>n rs. \<lparr>nrows = n, ncols = ncols D, entries = rs\<rparr>)
                  ns (split_rows (entries D) ns)))"

text \<open>\<^verbatim>\<open>d.view(p.shape)\<close> needs as many entries as the shape has; \<^verbatim>\<open>p.add_(v)\<close>.\<close>

definition view_as :: "mat \<Rightarrow> nat list \<Rightarrow> error + real list" where
  "view_as d s =
     (if nrows d * ncols d = prod_list s then Inr (concat (entries d))
      else Inl (RuntimeError ''shape is invalid for input size''))"

definition add_inplace :: "tensor \<Rightarrow> real list \<Rightarrow> tensor" where
  "add_inplace p v = p\<lparr>data := map2 (+) (data p) v\<rparr>"

text \<open>
  \<^verbatim>\<open>[p.add_(d.view(p.shape)) for p, d in zip(pg['params'], D) if p.requires_grad]\<close>:
  the pairs are visited in order; a pair whose parameter is frozen is passed over, and
  the first \<^verbatim>\<open>view\<close> that fails raises, after the additions made so far.
\<close>

fun add_all :: "(addr \<times> mat) list \<Rightarrow> store \<Rightarrow> (error + unit) \<times> store" where
  "add_all [] \<sigma> = (Inr (), \<sigma>)"
| "add_all ((a, d) # rest) \<sigma> =
     (if requires_grad (\<sigma> a)
      then (case view_as d (shape (\<sigma> a)) of
              Inl e \<Rightarrow> (Inl e, \<sigma>)
            | Inr v \<Rightarrow> add_all rest (\<sigma>(a := add_inplace (\<sigma> a) v)))
      else add_all rest \<sigma>)"

text \<open>Lines 143 and 144 (277 and 278).\<close>

definition update_params :: "addr list \<Rightarrow> nat list \<Rightarrow> mat \<Rightarrow> store \<Rightarrow> (error + unit) \<times> store" where
  "update_params ps ns D \<sigma> =
     (case torch_split D ns of
        Inl e \<Rightarrow> (Inl e, \<sigma>)
      | Inr ds \<Rightarrow> add_all (zip ps ds) \<sigma>)"

subsection \<open>The step\<close>

text \<open>The body of \<^verbatim>\<open>for pg in self.param_groups\<close>, for each optimizer.\<close>

definition lm_group ::
  "'x model \<Rightarrow> 'x \<Rightarrow> mat \<Rightarrow> mat \<Rightarrow> lm_options param_group \<Rightarrow> store \<Rightarrow> (error + unit) \<times> store" where
  "lm_group m x E K pg \<sigma> =
     (let ns = numels \<sigma> (params pg); J = modjac m \<sigma> x in
      case lm_solve (options pg) J K E of
        Inl e \<Rightarrow> (Inl e, \<sigma>)
      | Inr D \<Rightarrow> update_params (params pg) ns D \<sigma>)"

definition gn_group ::
  "linalg \<Rightarrow> bool \<Rightarrow> 'x model \<Rightarrow> 'x \<Rightarrow> mat \<Rightarrow> mat \<Rightarrow> gn_options param_group \<Rightarrow> store
     \<Rightarrow> (error + unit) \<times> store" where
  "gn_group la fast m x E K pg \<sigma> =
     (let ns = numels \<sigma> (params pg); J = modjac m \<sigma> x in
      case gn_solve la fast (options pg) J K E of
        Inl e \<Rightarrow> (Inl e, \<sigma>)
      | Inr D \<Rightarrow> update_params (params pg) ns D \<sigma>)"

fun for_groups ::
  "('g \<Rightarrow> store \<Rightarrow> (error + unit) \<times> store) \<Rightarrow> 'g list \<Rightarrow> store \<Rightarrow> (error + unit) \<times> store" where
  "for_groups body [] \<sigma> = (Inr (), \<sigma>)"
| "for_groups body (pg # pgs) \<sigma> =
     (case body pg \<sigma> of
        (Inl e, \<sigma>') \<Rightarrow> (Inl e, \<sigma>')
      | (Inr u, \<sigma>') \<Rightarrow> for_groups body pgs \<sigma>')"

text \<open>
  \<^verbatim>\<open>step(self, inputs, targets=None)\<close>: the residual and the kernel weights are computed
  before the loop over the groups, and the residual again after it for the loss that is
  returned. The result is the loss or the exception, and the store as the call leaves it.
\<close>

definition finish_step ::
  "'x model \<Rightarrow> kernel \<Rightarrow> 'x \<Rightarrow> pyval option \<Rightarrow> (error + unit) \<times> store \<Rightarrow> (error + real) \<times> store" where
  "finish_step m k x targets r =
     (case r of
        (Inl e, \<sigma>') \<Rightarrow> (Inl e, \<sigma>')
      | (Inr u, \<sigma>') \<Rightarrow>
          (case residual m \<sigma>' x targets of
             Inl e \<Rightarrow> (Inl e, \<sigma>')
           | Inr E' \<Rightarrow> (Inr (loss k E'), \<sigma>')))"

definition GaussNewton_step ::
  "linalg \<Rightarrow> 'x gauss_newton \<Rightarrow> 'x \<Rightarrow> pyval option \<Rightarrow> store \<Rightarrow> (error + real) \<times> store" where
  "GaussNewton_step la self x targets \<sigma> =
     (case residual (gn_model self) \<sigma> x targets of
        Inl e \<Rightarrow> (Inl e, \<sigma>)
      | Inr E \<Rightarrow>
          (let K = kernel_weight (gn_kernel self) E in
           finish_step (gn_model self) (gn_kernel self) x targets
             (for_groups (gn_group la (gn_fast self) (gn_model self) x E K)
                (gn_param_groups self) \<sigma>)))"

definition LevenbergMarquardt_step ::
  "'x levenberg_marquardt \<Rightarrow> 'x \<Rightarrow> pyval option \<Rightarrow> store \<Rightarrow> (error + real) \<times> store" where
  "LevenbergMarquardt_step self x targets \<sigma> =
     (case residual (lm_model self) \<sigma> x targets of
        Inl e \<Rightarrow> (Inl e, \<sigma>)
      | Inr E \<Rightarrow>
          (let K = kernel_weight (lm_kernel self) E in
           finish_step (lm_model self) (lm_kernel self) x targets
             (for_groups (lm_group (lm_model self) x E K) (lm_param_groups self) \<sigma>)))"

subsection \<open>The normal equations as the specification writes them\<close>

text \<open>\<open>K \<odot> E\<close>, the entrywise product of two tensors of the same shape.\<close>

definition hadamard :: "mat \<Rightarrow> mat \<Rightarrow> mat" where
  "hadamard K E =
     \<lparr>nrows = nrows K, ncols = ncols K, entries = map2 (map2 (*)) (entries K) (entries E)\<rparr>"

text \<open>\<open>J\<^sup>T (K \<odot> E)\<close>\<close>

definition spec_weighted_gradient :: "mat \<Rightarrow> mat \<Rightarrow> mat \<Rightarrow> error + mat" where
  "spec_weighted_gradient J K E = matmul (transpose_mat J) (hadamard K E)"

text \<open>The entry \<open>(i, j)\<close> of \<open>J\<^sup>T J\<close>.\<close>

definition gram :: "mat \<Rightarrow> nat \<Rightarrow> nat \<Rightarrow> real" where
  "gram J i j = (\<Sum>k<nrows J. entries J ! k ! i * entries J ! k ! j)"

text \<open>\<open>J\<^sup>T J\<close> with \<open>\<lambda> \<cdot> clamp(diag(J\<^sup>T J), min, max)\<close> added to its diagonal.\<close>

definition damped_normal_matrix :: "lm_options \<Rightarrow> mat \<Rightarrow> mat" where
  "damped_normal_matrix opts J =
     tabulate (ncols J) (ncols J)
       (\<lambda>i j. gram J i j +
               (if i = j then damping opts * clamp (gram J i i) (clamp_min opts) (clamp_max opts)
                else 0))"

subsection \<open>The update as the specification writes it\<close>

text \<open>
  The entries \<open>\<delta>\<close> of the solution are cut by the cumulative element counts of the
  trainable parameters of the group, in order; each trainable parameter receives its
  piece, and a frozen parameter is passed over and takes nothing of \<open>\<delta>\<close>.
\<close>

fun spec_update :: "store \<Rightarrow> addr list \<Rightarrow> real list \<Rightarrow> store" where
  "spec_update \<sigma> [] \<delta> = \<sigma>"
| "spec_update \<sigma> (a # ps) \<delta> =
     (if requires_grad (\<sigma> a)
      then (spec_update \<sigma> ps (drop (numel (\<sigma> a)) \<delta>))
             (a := add_inplace (\<sigma> a) (take (numel (\<sigma> a)) \<delta>))
      else spec_update \<sigma> ps \<delta>)"

subsection \<open>The contract of the least-squares routine for a zero right-hand side\<close>

text \<open>
  The least-squares solution of minimal norm of \<open>A X = B\<close> is zero when \<open>B\<close> is zero.
\<close>

definition lstsq_zero :: "linalg \<Rightarrow> bool" where
  "lstsq_zero la =
     (\<forall>A B rc dr f. lstsq_entries la A B rc dr = Inr f \<longrightarrow> wf_mat B \<longrightarrow> 0 < nrows B
        \<longrightarrow> is_zero B \<longrightarrow> (\<forall>i<ncols A. \<forall>j<ncols B. f i j = 0))"

subsection \<open>Groups without a frozen parameter ahead of a trainable one\<close>

definition trainable_first :: "store \<Rightarrow> addr list \<Rightarrow> bool" where
  "trainable_first \<sigma> ps =
     list_all (\<lambda>a. \<not> requires_grad (\<sigma> a)) (dropWhile (\<lambda>a. requires_grad (\<sigma> a)) ps)"

subsection \<open>Example configurations\<close>

definition scalar_tensor :: "real \<Rightarrow> bool \<Rightarrow> tensor" where
  "scalar_tensor v g = \<lparr>shape = [1], strides = [1], data = [v], requires_grad = g\<rparr>"

text \<open>
  A model with parameters \<open>ps\<close> whose output is the 1-tuple of its \<open>k\<close>-th parameter, a
  tensor of one entry.
\<close>

definition scalar_model :: "addr list \<Rightarrow> nat \<Rightarrow> unit model" where
  "scalar_model ps k =
     \<lparr>parameters = ps,
      forward = (\<lambda>\<theta> x. Tuple [scalar_tensor (hd (data (\<theta> ! k))) False]),
      partial = (\<lambda>\<theta> x i k' e. if k' = k then 1 else 0)\<rparr>"

text \<open>Parameter 0 is frozen and holds 2, parameter 1 is trainable and holds 5.\<close>

definition scalar_store :: store where
  "scalar_store = (\<lambda>a. scalar_tensor 0 False)(0 := scalar_tensor 2 False, 1 := scalar_tensor 5 True)"

definition lm_defaults :: "real \<Rightarrow> lm_options" where
  "lm_defaults dmp = \<lparr>damping = dmp, clamp_min = 1 / 10 ^ 6, clamp_max = 10 ^ 32\<rparr>"

definition lm_over :: "'x model \<Rightarrow> addr list list \<Rightarrow> 'x levenberg_marquardt" where
  "lm_over m gs =
     \<lparr>lm_model = m, lm_kernel = identity_kernel,
      lm_param_groups = map (\<lambda>ps. \<lparr>params = ps, options = lm_defaults 3\<rparr>) gs\<rparr>"

text \<open>
  A model with four parameters, the second one frozen, whose output is the concatenation
  of the entries of its trainable parameters 0, 2 and 3, so that its Jacobian is the
  identity matrix of size 4.
\<close>

definition concat_model :: "unit model" where
  "concat_model =
     \<lparr>parameters = [0, 1, 2, 3],
      forward = (\<lambda>\<theta> x. Single \<lparr>shape = [4], strides = [1],
                                  data = data (\<theta> ! 0) @ data (\<theta> ! 2) @ data (\<theta> ! 3),
                                  requires_grad = False\<rparr>),
      partial = (\<lambda>\<theta> x i k e. if (k = 0 \<and> i = 0) \<or> (k = 2 \<and> i = 1) \<or> (k = 3 \<and> i = 2 + e)
                               then 1 else 0)\<rparr>"

definition concat_store :: store where
  "concat_store =
     (\<lambda>a. scalar_tensor 0 False)
       (0 := scalar_tensor 4 True, 1 := scalar_tensor 9 False, 2 := scalar_tensor 4 True,
        3 := \<lparr>shape = [2], strides = [1], data = [4, 4], requires_grad = True\<rparr>)"

definition gn_over :: "'x model \<Rightarrow> bool \<Rightarrow> addr list list \<Rightarrow> 'x gauss_newton" where
  "gn_over m fast gs =
     \<lparr>gn_model = m, gn_kernel = identity_kernel, gn_fast = fast,
      gn_param_groups = map (\<lambda>ps. \<lparr>params = ps, options = \<lparr>rcond = None, driver = None\<rparr>\<rparr>) gs\<rparr>"

text \<open>
  A model with one parameter of one entry, at address 1, whose output is the 1-tuple of
  the square of that entry; and a store in which every tensor has one entry and is
  trainable.
\<close>

definition square_model :: "unit model" where
  "square_model =
     \<lparr>parameters = [1],
      forward = (\<lambda>\<theta> x. Tuple [scalar_tensor (hd (data (\<theta> ! 0)) * hd (data (\<theta> ! 0))) False]),
      partial = (\<lambda>\<theta> x i k e. 2 * hd (data (\<theta> ! 0)))\<rparr>"

definition square_store :: store where
  "square_store = (\<lambda>a. scalar_tensor 0 True)(1 := scalar_tensor 1 True)"

text \<open>
  The pseudo-inverse and the least-squares solution of a system of one equation in one
  unknown, \<open>a x = b\<close>: \<open>1 / a\<close> and \<open>b / a\<close>, and 0 for \<open>a = 0\<close>.
\<close>

definition scalar_linalg :: linalg where
  "scalar_linalg =
     \<lparr>pinverse_entries = (\<lambda>A. Inr (\<lambda>i j. inverse (entries A ! 0 ! 0))),
      lstsq_entries = (\<lambda>A B rc dr. Inr (\<lambda>i j. entries B ! 0 ! j / entries A ! 0 ! 0))\<rparr>"

text \<open>
  A model without parameters whose output is a 2-tuple of tensors of shapes \<open>(3, 1)\<close>
  and \<open>(2, 1)\<close>, holding the first three and the remaining entries of the input.
\<close>

definition pair_model :: "real list model" where
  "pair_model =
     \<lparr>parameters = [],
      forward = (\<lambda>\<theta> x. Tuple [\<lparr>shape = [3, 1], strides = [1, 1], data = take 3 x,
                                requires_grad = False\<rparr>,
                               \<lparr>shape = [2, 1], strides = [1, 1], data = drop 3 x,
                                requires_grad = False\<rparr>]),
      partial = (\<lambda>\<theta> x i k e. 0)\<rparr>"

text \<open>
  \<^verbatim>\<open>w.T\<close> for a two-dimensional tensor: the same storage with the two dimensions and
  their strides exchanged. A model with one trainable parameter, a matrix, whose output
  is the transpose of the parameter; in \<open>matrix_store\<close> the parameter is the contiguous
  tensor \<open>[[1, 2, 3], [4, 5, 6]]\<close>, so that the output has the shape \<open>(3, 2)\<close> and the
  strides \<open>(1, 3)\<close>.
\<close>

definition transposed :: "tensor \<Rightarrow> tensor" where
  "transposed t =
     (case shape t of
        [r, c] \<Rightarrow>
          \<lparr>shape = [c, r], strides = rev (strides t),
           data = concat (map (\<lambda>j. map (\<lambda>i. data t ! (i * c + j)) [0..<r]) [0..<c]),
           requires_grad = requires_grad t\<rparr>
      | _ \<Rightarrow> t)"

definition transposed_model :: "unit model" where
  "transposed_model =
     \<lparr>parameters = [1],
      forward = (\<lambda>\<theta> x. Single (transposed (\<theta> ! 0))),
      partial = (\<lambda>\<theta> x i k e. if e = (i mod 2) * 3 + i div 2 then 1 else 0)\<rparr>"

definition matrix_store :: store where
  "matrix_store =
     (\<lambda>a. scalar_tensor 0 False)
       (1 := \<lparr>shape = [2, 3], strides = [3, 1], data = [1, 2, 3, 4, 5, 6],
              requires_grad = True\<rparr>)"

text \<open>Routines that raise, as the library does when its decomposition does not converge.\<close>

definition raising_linalg :: linalg where
  "raising_linalg =
     \<lparr>pinverse_entries = (\<lambda>A. Inl (LinAlgError ''linalg.pinv: the algorithm failed to converge'')),
      lstsq_entries = (\<lambda>A B rc dr. Inl (LinAlgError ''linalg.lstsq: the algorithm failed to converge''))\<rparr>"

definition col :: "real list \<Rightarrow> mat" where
  "col xs = \<lparr>nrows = length xs, ncols = 1, entries = map (\<lambda>v. [v]) xs\<rparr>"

section \<open>Properties\<close>

subsection \<open>Auxiliary facts\<close>

lemmas tensor_defs = tsub_def broadcast_shape_def bdim_def pad_shape_def chunk_def view_col_def
  numel_def neg_mat_def cat_def py_iter_def square_mat_def col_def column_of_def
  flat_viewable_def view_ok_def is_contiguous_def result_strides_def

lemmas layout_defs = is_non_overlapping_and_dense_def operand_strides_def dimension_order_def

lemmas matrix_defs = matmul_def transpose_mat_def column_def dot_def diagonal_def diagonal_add_def
  clamp_def bmul_def bentry_def cholesky_def cholesky_solve_def back_subst_def tabulate_def

lemmas step_defs = LevenbergMarquardt_step_def GaussNewton_step_def residual_def kernel_weight_def
  identity_kernel_def finish_step_def lm_group_def gn_group_def numels_def modjac_def out_numel_def
  lm_solve_def gn_solve_def lm_matrix_def weighted_gradient_def update_params_def torch_split_def
  view_as_def add_inplace_def loss_def LevenbergMarquardt_init_def GaussNewton_init_def
  Optimizer_init_def pinverse_def lstsq_def Let_def

lemmas example_defs = scalar_tensor_def scalar_model_def scalar_store_def lm_defaults_def
  lm_over_def gn_over_def concat_model_def concat_store_def square_model_def square_store_def
  scalar_linalg_def

lemma for_groups_append:
  "for_groups body (pgs @ rest) \<sigma> =
     (case for_groups body pgs \<sigma> of
        (Inl e, \<sigma>') \<Rightarrow> (Inl e, \<sigma>')
      | (Inr u, \<sigma>') \<Rightarrow> for_groups body rest \<sigma>')"
  by (induction pgs arbitrary: \<sigma>) (auto split: prod.splits sum.splits)

lemma bindE_Inl [simp]: "bindE (Inl e) f = Inl e"
  by (simp add: bindE_def)

lemma bindE_Inr [simp]: "bindE (Inr v) f = f v"
  by (simp add: bindE_def)

lemma dot_sum:
  assumes "length u = n" "length v = n"
  shows "dot u v = (\<Sum>k<n. u ! k * v ! k)"
proof -
  have "dot u v = (\<Sum>k = 0..<n. map2 (*) u v ! k)"
    using assms by (simp add: dot_def sum_list_sum_nth)
  also have "\<dots> = (\<Sum>k = 0..<n. u ! k * v ! k)"
    using assms by (intro sum.cong) auto
  finally show ?thesis by (simp add: atLeast0LessThan)
qed

lemma wf_mat_row: "wf_mat A \<Longrightarrow> i < nrows A \<Longrightarrow> length (entries A ! i) = ncols A"
  by (simp add: wf_mat_def list_all_length)

lemma wf_mat_length: "wf_mat A \<Longrightarrow> length (entries A) = nrows A"
  by (simp add: wf_mat_def)

lemma length_column: "length (column A j) = length (entries A)"
  by (simp add: column_def)

lemma nth_column: "k < length (entries A) \<Longrightarrow> column A j ! k = entries A ! k ! j"
  by (simp add: column_def)

lemma gram_matmul:
  assumes "wf_mat J"
  shows "matmul (transpose_mat J) J = Inr (tabulate (ncols J) (ncols J) (gram J))"
proof -
  have len: "length (entries J) = nrows J" using assms by (rule wf_mat_length)
  have "dot (column J i) (column J j) = gram J i j" for i j
    unfolding gram_def using len
    by (subst dot_sum[where n = "nrows J"]) (simp_all add: length_column nth_column)
  then show ?thesis
    by (simp add: matmul_def transpose_mat_def tabulate_def)
qed

lemma entries_tabulate: "i < r \<Longrightarrow> j < c \<Longrightarrow> entries (tabulate r c f) ! i ! j = f i j"
  by (simp add: tabulate_def)

lemma lm_matrix_spec:
  assumes "wf_mat J"
  shows "lm_matrix opts J = Inr (damped_normal_matrix opts J)"
proof -
  let ?N = "ncols J"
  let ?A = "tabulate ?N ?N (gram J)"
  have d: "diagonal ?A = map (\<lambda>i. gram J i i) [0..<?N]"
    by (simp add: diagonal_def tabulate_def)
  have "diagonal_add ?A (map (\<lambda>d. damping opts * clamp d (clamp_min opts) (clamp_max opts)) (diagonal ?A))
        = damped_normal_matrix opts J"
    unfolding d damped_normal_matrix_def
    by (auto simp add: diagonal_add_def tabulate_def intro!: nth_equalityI simp: nth_list_update)
  then show ?thesis
    by (simp add: lm_matrix_def gram_matmul[OF assms] bindE_def)
qed

lemma weighted_gradient_spec:
  assumes J: "wf_mat J" and K: "wf_mat K" and E: "wf_mat E"
    and nK: "nrows K = nrows J" and nE: "nrows E = nrows J"
    and cK: "ncols K = 1" and cE: "ncols E = 1"
  shows "weighted_gradient J K E = spec_weighted_gradient J K E"
proof -
  let ?M = "nrows J" and ?N = "ncols J"
  have lJ: "length (entries J) = ?M" and lK: "length (entries K) = ?M" and lE: "length (entries E) = ?M"
    using J K E nK nE by (simp_all add: wf_mat_length)
  have b1: "bdim (Suc 0) ?N = Some ?N" by (simp add: bdim_def)
  have b2: "bdim ?M ?M = Some ?M" by (simp add: bdim_def)
  have W: "bmul (transpose_mat K) (transpose_mat J)
           = Inr (tabulate ?N ?M (\<lambda>i j. entries K ! j ! 0 * entries J ! j ! i))"
    using lJ lK cK nK
    by (auto simp add: bmul_def transpose_mat_def b1 b2 tabulate_def bentry_def nth_column)
  have lenH: "length (entries (hadamard K E)) = ?M"
    using lK lE by (simp add: hadamard_def)
  have rowK: "k < ?M \<Longrightarrow> length (entries K ! k) = 1" for k
    using wf_mat_row[OF K] nK cK by simp
  have rowE: "k < ?M \<Longrightarrow> length (entries E ! k) = 1" for k
    using wf_mat_row[OF E] nE cE by simp
  have H: "k < ?M \<Longrightarrow> entries (hadamard K E) ! k ! 0 = entries K ! k ! 0 * entries E ! k ! 0" for k
    using lK lE rowK[of k] rowE[of k] by (simp add: hadamard_def)
  have eq: "dot (map (\<lambda>j. entries K ! j ! 0 * entries J ! j ! i) [0..<?M]) (column E 0)
            = dot (column J i) (column (hadamard K E) 0)" for i
    using lJ lE lenH H
    by (subst dot_sum[where n = ?M], simp, simp add: length_column,
        subst dot_sum[where n = ?M], simp add: length_column, simp add: length_column,
        intro sum.cong) (simp_all add: nth_column mult_ac)
  show ?thesis
    unfolding weighted_gradient_def spec_weighted_gradient_def W
    using nE cE nK cK eq
    by (simp add: bindE_def matmul_def tabulate_def transpose_mat_def hadamard_def)
qed

lemma transpose_dims [simp]:
  "nrows (transpose_mat A) = ncols A" "ncols (transpose_mat A) = nrows A"
  "length (entries (transpose_mat A)) = ncols A"
  by (simp_all add: transpose_mat_def)

lemma wf_transpose: "length (entries A) = nrows A \<Longrightarrow> wf_mat (transpose_mat A)"
  by (simp add: wf_mat_def transpose_mat_def list_all_iff length_column)

lemma wf_tabulate [simp]: "wf_mat (tabulate r c f)"
  by (simp add: wf_mat_def tabulate_def list_all_iff)

lemma tabulate_dims [simp]: "nrows (tabulate r c f) = r" "ncols (tabulate r c f) = c"
  by (simp_all add: tabulate_def)

lemma matmul_dims:
  assumes "matmul A B = Inr C"
  shows "nrows C = nrows A" "ncols C = ncols B" "ncols A = nrows B"
    "length (entries C) = length (entries A)"
    "list_all (\<lambda>r. length r = ncols C) (entries C)"
  using assms by (auto simp add: matmul_def list_all_iff split: if_splits)

lemma bmul_dims:
  assumes "bmul A B = Inr C"
  shows "length (entries C) = nrows C" "bdim (nrows A) (nrows B) = Some (nrows C)"
    "bdim (ncols A) (ncols B) = Some (ncols C)"
  using assms by (auto simp add: bmul_def split: option.splits)

lemma weighted_gradient_dims:
  assumes "weighted_gradient J K E = Inr b"
  shows "ncols b = ncols E" "length (entries b) = nrows b"
    "list_all (\<lambda>r. length r = ncols b) (entries b)"
proof -
  from assms obtain W where W: "bmul (transpose_mat K) (transpose_mat J) = Inr W"
    and b: "matmul W E = Inr b"
    by (auto simp add: weighted_gradient_def bindE_def split: sum.splits)
  show "ncols b = ncols E" using matmul_dims[OF b] by simp
  show "length (entries b) = nrows b" using matmul_dims[OF b] bmul_dims[OF W] by simp
  show "list_all (\<lambda>r. length r = ncols b) (entries b)" using matmul_dims[OF b] by simp
qed

lemma lm_matrix_dims:
  assumes "lm_matrix opts J = Inr A"
  shows "nrows A = ncols J" "ncols A = ncols J" "length (entries A) = ncols J"
proof -
  from assms obtain C ds where C: "matmul (transpose_mat J) J = Inr C"
    and A: "A = diagonal_add C ds"
    by (auto simp add: lm_matrix_def bindE_def split: sum.splits)
  show "nrows A = ncols J" "ncols A = ncols J" "length (entries A) = ncols J"
    using matmul_dims[OF C] by (simp_all add: A diagonal_add_def)
qed

lemma chol_rows_length: "chol_rows as ls = Inr ls' \<Longrightarrow> length ls' = length ls + length as"
  by (induction as arbitrary: ls) (auto simp add: Let_def split: if_splits)

lemma cholesky_dims:
  assumes "cholesky A = Inr L"
  shows "nrows L = nrows A" "ncols L = ncols A" "nrows A = ncols A"
    "length (entries L) = length (entries A)"
proof -
  from assms have sq: "nrows A = ncols A"
    by (simp add: cholesky_def split: if_splits)
  with assms obtain ls where ls: "chol_rows (entries A) [] = Inr ls"
    and L: "L = \<lparr>nrows = nrows A, ncols = ncols A,
                 entries = map (\<lambda>l. l @ replicate (ncols A - length l) 0) ls\<rparr>"
    by (auto simp add: cholesky_def bindE_def split: sum.splits)
  show "nrows L = nrows A" "ncols L = ncols A" "nrows A = ncols A"
    "length (entries L) = length (entries A)"
    using chol_rows_length[OF ls] sq by (simp_all add: L)
qed

lemma cholesky_solve_dims:
  assumes "cholesky_solve b L = Inr D"
  shows "nrows D = nrows b" "ncols D = ncols b" "nrows b = nrows L" "wf_mat D"
proof -
  from assms have c: "nrows L = ncols L" "nrows b = nrows L"
    by (simp_all add: cholesky_solve_def split: if_splits)
  with assms obtain es where D: "D = transpose_mat \<lparr>nrows = ncols b, ncols = nrows b,
      entries = map es (entries (transpose_mat b))\<rparr>"
    by (auto simp add: cholesky_solve_def)
  show "nrows D = nrows b" "ncols D = ncols b" "nrows b = nrows L"
    using c by (simp_all add: D)
  show "wf_mat D" unfolding D by (rule wf_transpose) simp
qed

lemma lm_solve_dims:
  assumes "lm_solve opts J K E = Inr D"
  shows "nrows D = ncols J" "ncols D = ncols E" "wf_mat D"
proof -
  from assms obtain A b L where A: "lm_matrix opts J = Inr A"
    and b: "weighted_gradient J K E = Inr b" and L: "cholesky A = Inr L"
    and D: "cholesky_solve b L = Inr D"
    by (auto simp add: lm_solve_def bindE_def split: sum.splits)
  show "nrows D = ncols J"
    using cholesky_solve_dims[OF D] cholesky_dims[OF L] lm_matrix_dims[OF A] by simp
  show "ncols D = ncols E"
    using cholesky_solve_dims[OF D] weighted_gradient_dims[OF b] by simp
  show "wf_mat D" using cholesky_solve_dims[OF D] by simp
qed

lemma pinverse_dims:
  assumes "pinverse la A = Inr P"
  shows "nrows P = ncols A" "ncols P = nrows A" "wf_mat P"
  using assms by (auto simp add: pinverse_def bindE_def split: sum.splits)

lemma lstsq_dims:
  assumes "lstsq la A B rc dr = Inr X"
  shows "nrows X = ncols A" "ncols X = ncols B" "wf_mat X" "nrows A = nrows B"
  using assms by (auto simp add: lstsq_def bindE_def split: sum.splits if_splits)

lemma gn_solve_dims:
  assumes "gn_solve la fast opts J K E = Inr D"
  shows "nrows D = ncols J" "ncols D = ncols E" "wf_mat D"
proof -
  have "nrows D = ncols J \<and> ncols D = ncols E \<and> wf_mat D"
  proof (cases fast)
    case True
    with assms obtain A b where A: "matmul (transpose_mat J) J = Inr A"
      and b: "weighted_gradient J K E = Inr b"
      and D: "lstsq la A b (rcond opts) (driver opts) = Inr D"
      by (auto simp add: gn_solve_def bindE_def split: sum.splits)
    show ?thesis
      using lstsq_dims[OF D] matmul_dims[OF A] weighted_gradient_dims[OF b] by simp
  next
    case False
    with assms obtain A P b where A: "matmul (transpose_mat J) J = Inr A"
      and P: "pinverse la A = Inr P"
      and b: "weighted_gradient J K E = Inr b"
      and D: "matmul P b = Inr D"
      by (auto simp add: gn_solve_def bindE_def split: sum.splits)
    show ?thesis
      using matmul_dims[OF D] pinverse_dims[OF P] matmul_dims[OF A] weighted_gradient_dims[OF b]
      by (simp add: wf_mat_def)
  qed
  then show "nrows D = ncols J" "ncols D = ncols E" "wf_mat D" by simp_all
qed

lemma sum_list_filter_numel:
  "sum_list (map (\<lambda>p. if requires_grad p then numel p else 0) ps)
     = sum_list (map numel (filter requires_grad ps))"
  by (induction ps) auto


lemma wf_modjac: "wf_mat (modjac m \<sigma> x)"
proof -
  let ?\<theta> = "map \<sigma> (parameters m)"
  have "length (concat (map (\<lambda>k. if requires_grad (?\<theta> ! k)
            then map (f k) [0..<numel (?\<theta> ! k)] else []) [0..<length ?\<theta>]))
        = sum_list (map numel (filter requires_grad ?\<theta>))" for f :: "nat \<Rightarrow> nat \<Rightarrow> real"
  proof -
    have "length (concat (map (\<lambda>k. if requires_grad (?\<theta> ! k)
            then map (f k) [0..<numel (?\<theta> ! k)] else []) [0..<length ?\<theta>]))
        = sum_list (map (\<lambda>k. (\<lambda>p. if requires_grad p then numel p else 0) (?\<theta> ! k)) [0..<length ?\<theta>])"
      by (simp add: length_concat comp_def if_distrib cong: if_cong)
    also have "\<dots> = sum_list (map (\<lambda>p. if requires_grad p then numel p else 0)
                                  (map ((!) ?\<theta>) [0..<length ?\<theta>]))"
      by (simp add: comp_def)
    also have "\<dots> = sum_list (map (\<lambda>p. if requires_grad p then numel p else 0) ?\<theta>)"
      by (simp only: map_nth)
    finally show ?thesis by (simp only: sum_list_filter_numel)
  qed
  then show ?thesis
    by (simp add: wf_mat_def modjac_def Let_def list_all_iff)
qed

lemma filter_trainable_first:
  assumes "trainable_first \<sigma> ps"
  shows "filter (\<lambda>a. requires_grad (\<sigma> a)) ps = takeWhile (\<lambda>a. requires_grad (\<sigma> a)) ps"
proof -
  let ?P = "\<lambda>a. requires_grad (\<sigma> a)"
  have "filter ?P (dropWhile ?P ps) = []"
    using assms unfolding trainable_first_def list_all_iff filter_empty_conv by blast
  moreover have "filter ?P (takeWhile ?P ps) = takeWhile ?P ps"
    by (auto simp add: filter_id_conv dest: set_takeWhileD)
  ultimately have "filter ?P (takeWhile ?P ps @ dropWhile ?P ps) = takeWhile ?P ps"
    by (simp only: filter_append append_Nil2)
  then show ?thesis by (simp only: takeWhile_dropWhile_id)
qed

lemma numels_trainable_first:
  assumes "trainable_first \<sigma> ps"
  shows "numels \<sigma> ps = map (\<lambda>a. numel (\<sigma> a)) (takeWhile (\<lambda>a. requires_grad (\<sigma> a)) ps)"
  using filter_trainable_first[OF assms] by (simp add: numels_def filter_map comp_def)

lemma add_all_fits:
  assumes "list_all (\<lambda>(a, d). nrows d * ncols d = prod_list (shape (\<sigma> a))) pairs"
  shows "fst (add_all pairs \<sigma>) = Inr ()"
  using assms
proof (induction pairs arbitrary: \<sigma>)
  case Nil
  then show ?case by simp
next
  case (Cons p pairs)
  obtain a d where p: "p = (a, d)" by (cases p)
  from Cons.prems have fit: "nrows d * ncols d = prod_list (shape (\<sigma> a))"
    and rest: "list_all (\<lambda>(a, d). nrows d * ncols d = prod_list (shape (\<sigma> a))) pairs"
    by (simp_all add: p)
  have keep: "list_all (\<lambda>(a', d'). nrows d' * ncols d'
      = prod_list (shape ((\<sigma>(a := add_inplace (\<sigma> a) v)) a'))) pairs" for v
    using rest by (auto simp add: list_all_iff add_inplace_def)
  have ih1: "fst (add_all pairs \<sigma>) = Inr ()"
    using rest by (rule Cons.IH)
  have ih2: "fst (add_all pairs (\<sigma>(a := add_inplace (\<sigma> a) v))) = Inr ()" for v
    using keep by (rule Cons.IH)
  show ?case
    using fit ih1 ih2 by (simp add: p view_as_def)
qed

lemma length_split_rows: "length (split_rows rs ns) = length ns"
  by (induction ns arbitrary: rs) simp_all

lemma update_params_trainable_first:
  assumes tf: "trainable_first \<sigma> ps" and c: "ncols D = 1"
    and u: "update_params ps (numels \<sigma> ps) D \<sigma> = (Inl e, \<sigma>')"
  shows "\<sigma>' = \<sigma>"
proof (cases "torch_split D (numels \<sigma> ps)")
  case (Inl e')
  with u show ?thesis by (simp add: update_params_def)
next
  case (Inr ds)
  let ?P = "\<lambda>a. requires_grad (\<sigma> a)"
  let ?ns = "numels \<sigma> ps"
  have ns: "?ns = map (\<lambda>a. numel (\<sigma> a)) (takeWhile ?P ps)"
    by (rule numels_trainable_first[OF tf])
  from Inr have ds: "ds = map2 (\<lambda>n rs. \<lparr>nrows = n, ncols = ncols D, entries = rs\<rparr>)
      ?ns (split_rows (entries D) ?ns)"
    by (simp add: torch_split_def split: if_splits)
  have len: "length ds = length ?ns" by (simp add: ds length_split_rows)
  have "list_all (\<lambda>(a, d). nrows d * ncols d = prod_list (shape (\<sigma> a))) (zip ps ds)"
    unfolding list_all_length
  proof (intro allI impI)
    fix i assume i: "i < length (zip ps ds)"
    then have i1: "i < length ps" and i2: "i < length ?ns" using len by simp_all
    then have i3: "i < length (takeWhile ?P ps)" by (simp add: ns)
    have "ds ! i = \<lparr>nrows = ?ns ! i, ncols = ncols D, entries = split_rows (entries D) ?ns ! i\<rparr>"
      using i2 by (simp add: ds length_split_rows)
    moreover have "?ns ! i = numel (\<sigma> (ps ! i))"
      using i3 by (simp add: ns takeWhile_nth)
    ultimately show "case zip ps ds ! i of (a, d) \<Rightarrow> nrows d * ncols d = prod_list (shape (\<sigma> a))"
      using i c by (simp add: numel_def)
  qed
  then have "fst (add_all (zip ps ds) \<sigma>) = Inr ()" by (rule add_all_fits)
  with u Inr show ?thesis by (simp add: update_params_def)
qed


lemma concat_chunks:
  "length xs = d * n \<Longrightarrow> concat (map (chunk n xs) [0..<d]) = xs"
proof (induction d arbitrary: xs)
  case 0
  then show ?case by simp
next
  case (Suc d)
  have l: "length (take (d * n) xs) = d * n" using Suc.prems by simp
  have m: "map (chunk n xs) [0..<d] = map (chunk n (take (d * n) xs)) [0..<d]"
  proof (rule map_cong[OF refl])
    fix i assume "i \<in> set [0..<d]"
    then have "i * n + n \<le> d * n"
      by (metis add.commute atLeastLessThan_iff mult_Suc mult_le_mono1 set_upt Suc_leI)
    then show "chunk n xs i = chunk n (take (d * n) xs) i"
      by (simp add: chunk_def drop_take min_def)
  qed
  have "concat (map (chunk n xs) [0..<d]) = take (d * n) xs"
    unfolding m by (rule Suc.IH[OF l])
  moreover have "chunk n xs d = drop (d * n) xs"
    using Suc.prems by (simp add: chunk_def)
  ultimately show ?case by simp
qed

lemma length_chunk:
  "length xs = d * n \<Longrightarrow> i < d \<Longrightarrow> length (chunk n xs i) = n"
proof -
  assume a: "length xs = d * n" "i < d"
  then have "i * n + n \<le> d * n"
    by (metis add.commute mult_Suc mult_le_mono1 Suc_leI)
  with a show ?thesis by (simp add: chunk_def)
qed

lemma expand_same: "length xs = prod_list s \<Longrightarrow> expand s s xs = xs"
proof (induction s arbitrary: xs)
  case Nil
  then show ?case by simp
next
  case (Cons d ds)
  have m: "map (\<lambda>i. expand ds ds (chunk (prod_list ds) xs i)) [0..<d]
        = map (chunk (prod_list ds) xs) [0..<d]"
    using Cons.prems length_chunk[of xs d "prod_list ds"]
    by (intro map_cong[OF refl] Cons.IH) simp
  have "concat (map (\<lambda>i. expand ds ds (chunk (prod_list ds) xs i)) [0..<d]) = xs"
    unfolding m using Cons.prems by (intro concat_chunks) simp
  then show ?case by simp
qed

lemma bshape_rev_same: "bshape_rev s s = Some s"
  by (induction s) (simp_all add: bdim_def)

text \<open>A tensor in the row-major layout can be viewed as one column.\<close>

lemma length_contiguous_strides [simp]: "length (contiguous_strides S) = length S"
  by (induction S) simp_all

lemma contiguous_strides_snoc:
  "contiguous_strides (S @ [s]) = map (\<lambda>c. c * max 1 s) (contiguous_strides S) @ [1]"
  by (induction S) simp_all

lemma view_dims_whole: "0 < n \<Longrightarrow> view_dims n (Suc 0) [Suc 0, n] = (n, [])"
  by (cases "n = 1") simp_all

lemma rev_zip_row_major:
  assumes "0 < s"
  shows "rev (zip (S @ [s]) (map (\<lambda>c. c * k) (contiguous_strides (S @ [s]))))
    = (s, k) # rev (zip S (map (\<lambda>c. c * (k * s)) (contiguous_strides S)))"
proof -
  have "max 1 s = s" using assms by simp
  then have "map (\<lambda>c. c * k) (contiguous_strides (S @ [s]))
      = map (\<lambda>c. c * (k * s)) (contiguous_strides S) @ [k]"
    by (simp add: contiguous_strides_snoc mult.commute mult.left_commute)
  then show ?thesis by simp
qed

lemma view_chunks_row_major:
  "S \<noteq> [] \<Longrightarrow> 0 < k \<Longrightarrow> list_all (\<lambda>s. 0 < s) S
    \<Longrightarrow> view_chunks 1 k 1 (rev (zip S (map (\<lambda>c. c * k) (contiguous_strides S))))
          [1, k * prod_list S]"
proof (induction S arbitrary: k rule: rev_induct)
  case Nil
  then show ?case by simp
next
  case (snoc s S)
  from snoc.prems have s: "0 < s" and all: "list_all (\<lambda>s. 0 < s) S" by simp_all
  note z = rev_zip_row_major[OF s, of S k]
  show ?case
  proof (cases S rule: rev_cases)
    case Nil
    with s snoc.prems(2) show ?thesis
      by (simp del: view_dims.simps add: view_dims_whole)
  next
    case (snoc S' s')
    from all snoc have s': "0 < s'" by simp
    have ne: "S \<noteq> []" using snoc by simp
    have k: "0 < k * s" using s snoc.prems(2) by simp
    have IH: "view_chunks 1 (k * s) 1
        (rev (zip S (map (\<lambda>c. c * (k * s)) (contiguous_strides S)))) [1, k * s * prod_list S]"
      by (rule snoc.IH[OF ne k all])
    have h: "rev (zip S (map (\<lambda>c. c * (k * s)) (contiguous_strides S)))
        = (s', k * s) # rev (zip S' (map (\<lambda>c. c * (k * s * s')) (contiguous_strides S')))"
      unfolding snoc by (rule rev_zip_row_major[OF s'])
    show ?thesis
      unfolding z using IH unfolding h by (simp add: mult.assoc mult.commute mult.left_commute)
  qed
qed

lemma flat_viewable_row_major:
  assumes "strides t = contiguous_strides (shape t)"
  shows "flat_viewable t"
proof (cases "shape t = [] \<or> numel t = 0")
  case True
  then show ?thesis by (auto simp add: flat_viewable_def view_ok_def)
next
  case False
  then have ne: "shape t \<noteq> []" and all: "list_all (\<lambda>s. 0 < s) (shape t)"
    by (auto simp add: numel_def list_all_iff prod_list_zero_iff intro: gr0I)
  have l: "last (contiguous_strides (shape t)) = Suc 0"
    using ne by (cases "shape t" rule: rev_cases) (simp_all add: contiguous_strides_snoc)
  from view_chunks_row_major[OF ne _ all, of 1]
  show ?thesis by (simp add: flat_viewable_def view_ok_def l assms numel_def)
qed

lemma view_col_viewable: "flat_viewable t \<Longrightarrow> view_col t = Inr (column_of t)"
  by (simp add: view_col_def)

lemma view_col_Inr: "view_col t = Inr c \<Longrightarrow> c = column_of t"
  by (simp add: view_col_def split: if_splits)

text \<open>
  The difference of two contiguous tensors of the same shape is a new tensor in the
  row-major layout.
\<close>

lemma tsub_same_shape:
  assumes "shape t = shape u" "wf_tensor t" "wf_tensor u" "is_contiguous t" "is_contiguous u"
  shows "tsub t u = Inr \<lparr>shape = shape u, strides = contiguous_strides (shape u),
                          data = map2 (-) (data t) (data u), requires_grad = False\<rparr>"
  using assms
  by (simp add: tsub_def broadcast_shape_def bshape_rev_same pad_shape_def expand_same
      wf_tensor_def numel_def result_strides_def)

lemma sub_cols_all:
  "map (\<lambda>(t, u). tsub t u) ps = map Inr ds \<Longrightarrow> list_all flat_viewable ds
    \<Longrightarrow> sub_cols ps = Inr (map column_of ds)"
proof (induction ps arbitrary: ds)
  case Nil
  then show ?case by simp
next
  case (Cons p ps)
  obtain t u where p: "p = (t, u)" by (cases p)
  from Cons.prems obtain d ds' where ds: "ds = d # ds'" by (cases ds) auto
  from Cons.prems have "tsub t u = Inr d" "map (\<lambda>(t, u). tsub t u) ps = map Inr ds'"
    "flat_viewable d" "list_all flat_viewable ds'"
    by (simp_all add: p ds)
  then show ?case using Cons.IH[of ds'] by (simp add: p ds view_col_viewable)
qed

lemma neg_cols_all:
  "list_all flat_viewable us \<Longrightarrow> neg_cols us = Inr (map (\<lambda>u. neg_mat (column_of u)) us)"
  by (induction us) (simp_all add: view_col_viewable)

lemma cat_view_cols:
  assumes "ds \<noteq> []"
  shows "cat (map column_of ds)
    = Inr \<lparr>nrows = sum_list (map numel ds), ncols = 1,
           entries = map (\<lambda>v. [v]) (concat (map data ds))\<rparr>"
proof -
  have "concat (map (entries \<circ> column_of) ds) = map (\<lambda>v. [v]) (concat (map data ds))"
    by (simp add: column_of_def map_concat comp_def)
  moreover have "sum_list (map (nrows \<circ> column_of) ds) = sum_list (map numel ds)"
    by (simp add: column_of_def comp_def)
  ultimately show ?thesis
    using assms
    by (cases ds) (simp_all add: cat_def list_all_iff column_of_def comp_def)
qed

lemma cat_neg_view_cols:
  assumes "us \<noteq> []"
  shows "cat (map (\<lambda>u. neg_mat (column_of u)) us)
    = Inr \<lparr>nrows = sum_list (map numel us), ncols = 1,
           entries = map (\<lambda>v. [- v]) (concat (map data us))\<rparr>"
proof -
  have "concat (map (\<lambda>u. entries (neg_mat (column_of u))) us)
        = map (\<lambda>v. [- v]) (concat (map data us))"
    by (simp add: column_of_def neg_mat_def map_concat comp_def)
  moreover have "sum_list (map (\<lambda>u. nrows (neg_mat (column_of u))) us) = sum_list (map numel us)"
    by (simp add: column_of_def neg_mat_def)
  ultimately show ?thesis
    using assms
    by (cases us) (simp_all add: cat_def list_all_iff column_of_def neg_mat_def comp_def)
qed

lemma map2_concat:
  "list_all2 (\<lambda>a b. length a = length b) xs ys
    \<Longrightarrow> map2 f (concat xs) (concat ys) = concat (map2 (map2 f) xs ys)"
  by (induction xs ys rule: list_all2_induct) simp_all


lemma tsub_matched:
  assumes "list_all2 (\<lambda>t u. shape t = shape u \<and> wf_tensor t \<and> wf_tensor u
                            \<and> is_contiguous t \<and> is_contiguous u) ts us"
  shows "\<exists>ds. map (\<lambda>(t, u). tsub t u) (zip ts us) = map Inr ds
    \<and> list_all flat_viewable ds
    \<and> length ds = length us
    \<and> sum_list (map numel ds) = length (map2 (-) (concat (map data ts)) (concat (map data us)))
    \<and> concat (map data ds) = map2 (-) (concat (map data ts)) (concat (map data us))"
  using assms
proof (induction ts us rule: list_all2_induct)
  case Nil
  then show ?case by simp
next
  case (Cons t ts u us)
  then obtain ds where ds: "map (\<lambda>(t, u). tsub t u) (zip ts us) = map Inr ds"
    "length ds = length us"
    "sum_list (map numel ds) = length (map2 (-) (concat (map data ts)) (concat (map data us)))"
    "concat (map data ds) = map2 (-) (concat (map data ts)) (concat (map data us))"
    and fv: "list_all flat_viewable ds"
    by blast
  let ?d = "\<lparr>shape = shape u, strides = contiguous_strides (shape u),
             data = map2 (-) (data t) (data u), requires_grad = False\<rparr>"
  have t: "tsub t u = Inr ?d" using Cons.hyps by (intro tsub_same_shape) simp_all
  have len: "length (data t) = length (data u)" "numel ?d = length (data u)"
    using Cons.hyps by (simp_all add: wf_tensor_def numel_def)
  have "flat_viewable ?d" by (rule flat_viewable_row_major) simp
  with fv have "list_all flat_viewable (?d # ds)" by simp
  moreover have "map (\<lambda>(t, u). tsub t u) (zip (t # ts) (u # us)) = map Inr (?d # ds)"
    using t ds(1) by simp
  moreover have "length (?d # ds) = length (u # us)" using ds(2) by simp
  moreover have "sum_list (map numel (?d # ds))
      = length (map2 (-) (concat (map data (t # ts))) (concat (map data (u # us))))"
    using len ds(3) by simp
  moreover have "concat (map data (?d # ds))
      = map2 (-) (concat (map data (t # ts))) (concat (map data (u # us)))"
    using len ds(4) by simp
  ultimately show ?case by blast
qed

lemma dot_zero_right: "list_all (\<lambda>v. v = 0) v \<Longrightarrow> dot u v = 0"
proof (induction u arbitrary: v)
  case Nil
  then show ?case by (simp add: dot_def)
next
  case (Cons a u)
  then show ?case by (cases v) (simp_all add: dot_def)
qed

lemma dot_zero_left: "list_all (\<lambda>v. v = 0) u \<Longrightarrow> dot u v = 0"
proof (induction u arbitrary: v)
  case Nil
  then show ?case by (simp add: dot_def)
next
  case (Cons a u)
  then show ?case by (cases v) (simp_all add: dot_def)
qed

lemma column_zero:
  assumes "is_zero B" "list_all (\<lambda>r. length r = ncols B) (entries B)" "j < ncols B"
  shows "list_all (\<lambda>v. v = 0) (column B j)"
  using assms by (auto simp add: is_zero_def column_def list_all_iff)

lemma matmul_zero_right:
  assumes "matmul A B = Inr C" "is_zero B" "list_all (\<lambda>r. length r = ncols B) (entries B)"
  shows "is_zero C"
proof -
  have "dot r (column B j) = 0" if "j < ncols B" for r j
    using column_zero[OF assms(2,3) that] by (rule dot_zero_right)
  moreover from assms(1) have "entries C
      = map (\<lambda>r. map (\<lambda>j. dot r (column B j)) [0..<ncols B]) (entries A)"
    by (auto simp add: matmul_def split: if_splits)
  ultimately show ?thesis
    by (simp add: is_zero_def list_all_iff)
qed

lemma weighted_gradient_zero:
  assumes "weighted_gradient J K E = Inr b" "is_zero E"
    "list_all (\<lambda>r. length r = ncols E) (entries E)"
  shows "is_zero b"
proof -
  from assms(1) obtain W where "matmul W E = Inr b"
    by (auto simp add: weighted_gradient_def bindE_def split: sum.splits)
  then show ?thesis using assms(2,3) by (rule matmul_zero_right)
qed

lemma forward_subst_zero:
  "list_all (\<lambda>v. v = 0) bs \<Longrightarrow> list_all (\<lambda>v. v = 0) y
    \<Longrightarrow> list_all (\<lambda>v. v = 0) (forward_subst ls bs y)"
proof (induction ls bs y rule: forward_subst.induct)
  case (1 l ls b bs y)
  have "dot y l = 0" using "1.prems"(2) by (rule dot_zero_left)
  moreover have "b = 0" "list_all (\<lambda>v. v = 0) bs" using "1.prems"(1) by simp_all
  ultimately show ?case using "1.IH" "1.prems"(2) by simp
qed simp_all


lemma length_forward_subst:
  "length (forward_subst ls bs y) = length y + min (length ls) (length bs)"
  by (induction ls bs y rule: forward_subst.induct) simp_all

lemma back_subst_zero:
  "list_all (\<lambda>v. v = 0) y \<Longrightarrow> list_all (\<lambda>v. v = 0) (back_subst us y)"
  using forward_subst_zero[of "rev y" "[]" "map rev (rev us)"]
  by (simp add: back_subst_def list_all_iff)

lemma length_back_subst: "length (back_subst us y) = min (length us) (length y)"
  by (simp add: back_subst_def length_forward_subst)

lemma solve_column_zero:
  assumes "list_all (\<lambda>v. v = 0) c" and "length c = n" and "length ls = n" and "length us = n"
  shows "list_all (\<lambda>v. v = 0) (back_subst us (forward_subst ls c []))"
    and "length (back_subst us (forward_subst ls c [])) = n"
proof -
  have "list_all (\<lambda>v. v = 0) (forward_subst ls c [])"
    using assms(1) by (intro forward_subst_zero) simp_all
  then show "list_all (\<lambda>v. v = 0) (back_subst us (forward_subst ls c []))"
    by (rule back_subst_zero)
  show "length (back_subst us (forward_subst ls c [])) = n"
    using assms(2,3,4) by (simp add: length_back_subst length_forward_subst)
qed

lemma columns_of_zero_rows:
  assumes "\<And>r. r \<in> set es \<Longrightarrow> list_all (\<lambda>v. v = 0) r \<and> length r = n"
  shows "list_all (list_all (\<lambda>v. v = 0)) (map (\<lambda>j. map (\<lambda>r. r ! j) es) [0..<n])"
proof -
  have "r ! j = 0" if "r \<in> set es" "j < n" for r j
    using assms[OF that(1)] that(2) by (simp add: list_all_length)
  then show ?thesis by (simp add: list_all_iff)
qed

lemma cholesky_solve_zero:
  assumes D: "cholesky_solve b L = Inr D" and z: "is_zero b"
    and rows: "list_all (\<lambda>r. length r = ncols b) (entries b)"
    and lb: "length (entries b) = nrows b" and lL: "length (entries L) = nrows L"
  shows "is_zero D"
proof -
  let ?n = "nrows b"
  let ?solve = "\<lambda>c. back_subst (entries (transpose_mat L)) (forward_subst (entries L) c [])"
  let ?es = "map ?solve (map (column b) [0..<ncols b])"
  from D have sq: "ncols L = ?n" "nrows L = ?n"
    by (simp_all add: cholesky_solve_def split: if_splits)
  from D have DX: "D = transpose_mat \<lparr>nrows = ncols b, ncols = ?n, entries = ?es\<rparr>"
    by (simp add: cholesky_solve_def transpose_mat_def split: if_splits)
  have es: "list_all (\<lambda>v. v = 0) r \<and> length r = ?n" if "r \<in> set ?es" for r
  proof -
    from that obtain k where k: "k < ncols b" and r: "r = ?solve (column b k)" by auto
    have c: "list_all (\<lambda>v. v = 0) (column b k)" using z rows k by (rule column_zero)
    have l1: "length (column b k) = ?n" by (simp only: length_column lb)
    have l2: "length (entries L) = ?n" by (simp only: lL sq)
    have l3: "length (entries (transpose_mat L)) = ?n" by (simp only: transpose_dims sq)
    show ?thesis unfolding r using solve_column_zero[OF c l1 l2 l3] by (rule conjI)
  qed
  have "entries D = map (\<lambda>j. map (\<lambda>r. r ! j) ?es) [0..<?n]"
    unfolding DX by (simp add: transpose_mat_def column_def)
  then show ?thesis
    unfolding is_zero_def using columns_of_zero_rows[of ?es ?n, OF es] by (simp only:)
qed

lemma lm_solve_zero:
  assumes "lm_solve opts J K E = Inr D" "is_zero E"
    "list_all (\<lambda>r. length r = ncols E) (entries E)"
  shows "is_zero D"
proof -
  from assms(1) obtain A b L where A: "lm_matrix opts J = Inr A"
    and b: "weighted_gradient J K E = Inr b" and L: "cholesky A = Inr L"
    and D: "cholesky_solve b L = Inr D"
    by (auto simp add: lm_solve_def bindE_def split: sum.splits)
  have "is_zero b" using b assms(2,3) by (rule weighted_gradient_zero)
  moreover have "length (entries L) = nrows L"
    using cholesky_dims[OF L] lm_matrix_dims[OF A] by simp
  ultimately show ?thesis
    using D weighted_gradient_dims[OF b] by (intro cholesky_solve_zero[OF D]) simp_all
qed

lemma gn_solve_zero:
  assumes D: "gn_solve la fast opts J K E = Inr D" and z: "is_zero E"
    and rows: "list_all (\<lambda>r. length r = ncols E) (entries E)"
    and la: "fast \<longrightarrow> lstsq_zero la"
  shows "is_zero D"
proof (cases fast)
  case True
  with D obtain A b where A: "matmul (transpose_mat J) J = Inr A"
    and b: "weighted_gradient J K E = Inr b"
    and X: "lstsq la A b (rcond opts) (driver opts) = Inr D"
    by (auto simp add: gn_solve_def bindE_def split: sum.splits)
  from X obtain f where f: "lstsq_entries la A b (rcond opts) (driver opts) = Inr f"
    and Df: "D = tabulate (ncols A) (ncols b) f" and n: "nrows A = nrows b"
    by (auto simp add: lstsq_def bindE_def split: if_splits sum.splits)
  have zb: "is_zero b" using b z rows by (rule weighted_gradient_zero)
  have wb: "wf_mat b" using weighted_gradient_dims[OF b] by (simp add: wf_mat_def)
  have "f i j = 0" if "i < ncols A" "j < ncols b" for i j
  proof -
    have "0 < nrows b" using that(1) matmul_dims[OF A] n by simp
    with la True f wb zb that show ?thesis unfolding lstsq_zero_def by blast
  qed
  then show ?thesis by (simp add: Df is_zero_def tabulate_def list_all_iff)
next
  case False
  with D obtain P b where b: "weighted_gradient J K E = Inr b" and M: "matmul P b = Inr D"
    by (auto simp add: gn_solve_def bindE_def split: sum.splits)
  have "is_zero b" using b z rows by (rule weighted_gradient_zero)
  then show ?thesis using M weighted_gradient_dims[OF b] by (intro matmul_zero_right[OF M])
qed

lemma split_rows_sub:
  "sum_list ns \<le> length rs
    \<Longrightarrow> list_all2 (\<lambda>k sr. length sr = k \<and> set sr \<subseteq> set rs) ns (split_rows rs ns)"
proof (induction ns arbitrary: rs)
  case Nil
  then show ?case by simp
next
  case (Cons n ns)
  have "sum_list ns \<le> length (drop n rs)" using Cons.prems by simp
  then have "list_all2 (\<lambda>k sr. length sr = k \<and> set sr \<subseteq> set (drop n rs)) ns
      (split_rows (drop n rs) ns)"
    by (rule Cons.IH[of "drop n rs"])
  then have "list_all2 (\<lambda>k sr. length sr = k \<and> set sr \<subseteq> set rs) ns (split_rows (drop n rs) ns)"
    using set_drop_subset[of n rs] by (auto elim!: list_all2_mono)
  moreover have "length (take n rs) = n" using Cons.prems by simp
  moreover have "set (take n rs) \<subseteq> set rs" by (rule set_take_subset)
  ultimately show ?case by simp
qed

lemma torch_split_zero:
  assumes "torch_split D ns = Inr ds" "wf_mat D" "is_zero D"
  shows "list_all (\<lambda>d. is_zero d \<and> wf_mat d) ds"
proof -
  from assms(1) have sum: "sum_list ns = nrows D"
    and ds: "ds = map2 (\<lambda>n rs. \<lparr>nrows = n, ncols = ncols D, entries = rs\<rparr>) ns
        (split_rows (entries D) ns)"
    by (simp_all add: torch_split_def split: if_splits)
  have "sum_list ns \<le> length (entries D)" using sum assms(2) by (simp add: wf_mat_def)
  then have all: "list_all2 (\<lambda>k sr. length sr = k \<and> set sr \<subseteq> set (entries D)) ns
      (split_rows (entries D) ns)"
    by (rule split_rows_sub)
  have "is_zero d \<and> wf_mat d" if "d \<in> set ds" for d
  proof -
    from that obtain n sr where nsr: "(n, sr) \<in> set (zip ns (split_rows (entries D) ns))"
      and d: "d = \<lparr>nrows = n, ncols = ncols D, entries = sr\<rparr>"
      by (auto simp add: ds)
    from nsr all have "length sr = n" "set sr \<subseteq> set (entries D)"
      by (auto simp add: list_all2_iff)
    then show ?thesis
      using assms(2,3) by (auto simp add: d is_zero_def wf_mat_def list_all_iff)
  qed
  then show ?thesis by (simp add: list_all_iff)
qed

lemma length_concat_wf: "wf_mat d \<Longrightarrow> length (concat (entries d)) = nrows d * ncols d"
proof -
  assume w: "wf_mat d"
  have "list_all (\<lambda>r. length r = c) rs \<Longrightarrow> sum_list (map length rs) = length rs * c"
    for rs :: "real list list" and c
    by (induction rs) simp_all
  from this[of "ncols d" "entries d"] w show ?thesis
    by (simp add: wf_mat_def length_concat)
qed

lemma map2_add_zero:
  "list_all (\<lambda>v. v = 0) zs \<Longrightarrow> length zs = length xs \<Longrightarrow> map2 (+) xs zs = (xs :: real list)"
  by (induction xs zs rule: list_induct2') simp_all

lemma add_all_zero:
  assumes "list_all (\<lambda>(a, d). is_zero d \<and> wf_mat d) pairs" and "\<And>a. wf_tensor (\<sigma> a)"
  shows "snd (add_all pairs \<sigma>) = \<sigma>"
  using assms(1)
proof (induction pairs)
  case Nil
  then show ?case by simp
next
  case (Cons p pairs)
  obtain a d where p: "p = (a, d)" by (cases p)
  from Cons.prems have d: "is_zero d" "wf_mat d"
    and rest: "list_all (\<lambda>(a, d). is_zero d \<and> wf_mat d) pairs"
    by (simp_all add: p)
  have ih: "snd (add_all pairs \<sigma>) = \<sigma>" using rest by (rule Cons.IH)
  have same: "add_inplace (\<sigma> a) (concat (entries d)) = \<sigma> a"
    if "nrows d * ncols d = prod_list (shape (\<sigma> a))"
  proof -
    have "length (concat (entries d)) = length (data (\<sigma> a))"
      using that length_concat_wf[OF d(2)] assms(2)[of a] by (simp add: wf_tensor_def numel_def)
    moreover have "list_all (\<lambda>v. v = 0) (concat (entries d))"
      using d(1) by (auto simp add: is_zero_def list_all_iff)
    ultimately have "map2 (+) (data (\<sigma> a)) (concat (entries d)) = data (\<sigma> a)"
      by (intro map2_add_zero)
    then show ?thesis by (simp add: add_inplace_def)
  qed
  show ?case
    using ih same by (simp add: p view_as_def)
qed

lemma update_params_zero:
  assumes "wf_mat D" "is_zero D" "\<And>a. wf_tensor (\<sigma> a)"
  shows "snd (update_params ps ns D \<sigma>) = \<sigma>"
proof (cases "torch_split D ns")
  case (Inl e)
  then show ?thesis by (simp add: update_params_def)
next
  case (Inr ds)
  have "list_all (\<lambda>d. is_zero d \<and> wf_mat d) ds"
    using Inr assms(1,2) by (rule torch_split_zero)
  then have "list_all (\<lambda>(a, d). is_zero d \<and> wf_mat d) (zip ps ds)"
    by (auto simp add: list_all_iff dest: set_zip_rightD)
  then have "snd (add_all (zip ps ds) \<sigma>) = \<sigma>" using assms(3) by (rule add_all_zero)
  with Inr show ?thesis by (simp add: update_params_def)
qed

lemma for_groups_fixed:
  assumes "\<And>pg. snd (body pg \<sigma>) = \<sigma>"
  shows "snd (for_groups body pgs \<sigma>) = \<sigma>"
proof (induction pgs)
  case Nil
  then show ?case by simp
next
  case (Cons pg pgs)
  obtain r \<sigma>' where b: "body pg \<sigma> = (r, \<sigma>')" by (cases "body pg \<sigma>")
  with assms[of pg] have "\<sigma>' = \<sigma>" by simp
  with b Cons.IH show ?case by (cases r) simp_all
qed

lemma sub_cols_columns:
  "sub_cols ps = Inr ms
    \<Longrightarrow> list_all (\<lambda>m. ncols m = 1 \<and> list_all (\<lambda>r. length r = 1) (entries m)) ms"
proof (induction ps arbitrary: ms)
  case Nil
  then show ?case by simp
next
  case (Cons p ps)
  obtain t u where p: "p = (t, u)" by (cases p)
  from Cons.prems obtain d ms' where "sub_cols ps = Inr ms'" and ms: "ms = column_of d # ms'"
    by (auto simp add: p bindE_def split: sum.splits dest: view_col_Inr)
  with Cons.IH[of ms'] show ?case by (simp add: column_of_def list_all_iff)
qed

lemma neg_cols_columns:
  "neg_cols us = Inr ms
    \<Longrightarrow> list_all (\<lambda>m. ncols m = 1 \<and> list_all (\<lambda>r. length r = 1) (entries m)) ms"
proof (induction us arbitrary: ms)
  case Nil
  then show ?case by simp
next
  case (Cons u us)
  from Cons.prems obtain ms' where "neg_cols us = Inr ms'"
    and ms: "ms = neg_mat (column_of u) # ms'"
    by (auto simp add: bindE_def split: sum.splits dest: view_col_Inr)
  with Cons.IH[of ms'] show ?case by (simp add: column_of_def neg_mat_def list_all_iff)
qed

lemma cat_columns:
  assumes "cat ms = Inr E"
    and "list_all (\<lambda>m. ncols m = 1 \<and> list_all (\<lambda>r. length r = 1) (entries m)) ms"
  shows "ncols E = 1 \<and> list_all (\<lambda>r. length r = 1) (entries E)"
proof (cases ms)
  case Nil
  with assms(1) show ?thesis by (simp add: cat_def)
next
  case (Cons m ms')
  with assms(1) have E: "ncols E = ncols m" "entries E = concat (map entries ms)"
    by (auto simp add: cat_def split: if_splits)
  with assms(2) Cons show ?thesis by (auto simp add: list_all_iff)
qed

lemma residual_column:
  assumes "residual m \<sigma> x targets = Inr E"
  shows "ncols E = 1" "list_all (\<lambda>r. length r = ncols E) (entries E)"
proof -
  let ?P = "\<lambda>m. ncols m = 1 \<and> list_all (\<lambda>r. length r = 1) (entries m)"
  have v: "?P (column_of t)" "?P (neg_mat (column_of t))" for t
    by (simp_all add: column_of_def neg_mat_def list_all_iff)
  have "?P E"
  proof (cases "forward m (map \<sigma> (parameters m)) x")
    case (Single u)
    show ?thesis
    proof (cases targets)
      case None
      with assms Single have "E = neg_mat (column_of u)"
        by (auto simp add: residual_def bindE_def split: sum.splits dest: view_col_Inr)
      with v show ?thesis by simp
    next
      case (Some tg)
      with assms Single obtain d where "E = column_of d"
        by (auto simp add: residual_def bindE_def split: pyval.splits sum.splits
            dest: view_col_Inr)
      with v show ?thesis by simp
    qed
  next
    case (Tuple us)
    show ?thesis
    proof (cases targets)
      case None
      with assms Tuple obtain ms where "neg_cols us = Inr ms" "cat ms = Inr E"
        by (auto simp add: residual_def bindE_def split: sum.splits)
      then show ?thesis using neg_cols_columns cat_columns by blast
    next
      case (Some tg)
      with assms Tuple obtain ts ms where "sub_cols (zip ts us) = Inr ms" "cat ms = Inr E"
        by (auto simp add: residual_def bindE_def split: sum.splits)
      then show ?thesis using sub_cols_columns cat_columns by blast
    qed
  qed
  then show "ncols E = 1" "list_all (\<lambda>r. length r = ncols E) (entries E)" by simp_all
qed

lemma sum_list_zeros: "list_all (\<lambda>v. v = 0) xs \<Longrightarrow> sum_list xs = (0 :: real)"
  by (induction xs) simp_all

lemma finish_step_fixed:
  assumes "snd r = \<sigma>" and "residual m \<sigma> x targets = Inr E"
  shows "snd (finish_step m k x targets r) = \<sigma>"
    and "fst (finish_step m k x targets r) = Inr l \<Longrightarrow> l = loss k E"
  using assms by (auto simp add: finish_step_def split: prod.splits sum.splits)

lemma spec_update_frozen:
  "list_all (\<lambda>a. \<not> requires_grad (\<sigma> a)) ps \<Longrightarrow> spec_update \<sigma> ps \<delta> = \<sigma>"
  by (induction ps arbitrary: \<delta>) simp_all

lemma spec_update_other:
  "a \<notin> set ps \<Longrightarrow> spec_update (\<sigma>(a := t)) ps \<delta> = (spec_update \<sigma> ps \<delta>)(a := t)"
proof (induction ps arbitrary: \<delta>)
  case Nil
  then show ?case by simp
next
  case (Cons b ps)
  from Cons.prems have ne: "a \<noteq> b" and na: "a \<notin> set ps" by auto
  note ih = Cons.IH[OF na]
  have sb: "(\<sigma>(a := t)) b = \<sigma> b" using ne by simp
  show ?case
  proof (cases "requires_grad (\<sigma> b)")
    case True
    have "spec_update (\<sigma>(a := t)) (b # ps) \<delta>
        = ((spec_update \<sigma> ps (drop (numel (\<sigma> b)) \<delta>))(a := t))
            (b := add_inplace (\<sigma> b) (take (numel (\<sigma> b)) \<delta>))"
      using True by (simp only: spec_update.simps sb ih if_True)
    also have "\<dots> = ((spec_update \<sigma> ps (drop (numel (\<sigma> b)) \<delta>))
            (b := add_inplace (\<sigma> b) (take (numel (\<sigma> b)) \<delta>)))(a := t)"
      using ne by (rule fun_upd_twist)
    also have "\<dots> = (spec_update \<sigma> (b # ps) \<delta>)(a := t)"
      using True by (simp only: spec_update.simps if_True)
    finally show ?thesis .
  next
    case False
    then show ?thesis by (simp only: spec_update.simps sb ih if_False)
  qed
qed

lemma concat_take_singletons:
  "list_all (\<lambda>r. length r = 1) rs \<Longrightarrow> concat (take n rs) = take n (concat rs)"
proof (induction rs arbitrary: n)
  case Nil
  then show ?case by simp
next
  case (Cons r rs)
  then show ?case by (cases n) simp_all
qed

lemma concat_drop_singletons:
  "list_all (\<lambda>r. length r = 1) rs \<Longrightarrow> concat (drop n rs) = drop n (concat rs)"
proof (induction rs arbitrary: n)
  case Nil
  then show ?case by simp
next
  case (Cons r rs)
  then show ?case by (cases n) simp_all
qed

lemma numels_other: "a \<notin> set ps \<Longrightarrow> numels (\<sigma>(a := t)) ps = numels \<sigma> ps"
proof -
  assume "a \<notin> set ps"
  then have m: "map (\<sigma>(a := t)) ps = map \<sigma> ps" by (intro map_cong) auto
  show ?thesis unfolding numels_def m by (rule refl)
qed

lemma trainable_first_Cons:
  "trainable_first \<sigma> (a # ps) =
     (if requires_grad (\<sigma> a) then trainable_first \<sigma> ps
      else list_all (\<lambda>b. \<not> requires_grad (\<sigma> b)) ps)"
  by (simp add: trainable_first_def)

lemma trainable_first_cong:
  "(\<And>b. b \<in> set ps \<Longrightarrow> requires_grad (\<tau> b) = requires_grad (\<sigma> b))
    \<Longrightarrow> trainable_first \<tau> ps = trainable_first \<sigma> ps"
proof (induction ps)
  case Nil
  show ?case by (simp add: trainable_first_def)
next
  case (Cons a ps)
  have h: "requires_grad (\<tau> a) = requires_grad (\<sigma> a)" by (rule Cons.prems) simp
  have t: "trainable_first \<tau> ps = trainable_first \<sigma> ps"
    by (rule Cons.IH) (simp add: Cons.prems)
  have "(\<forall>b\<in>set ps. \<not> requires_grad (\<tau> b)) = (\<forall>b\<in>set ps. \<not> requires_grad (\<sigma> b))"
    using Cons.prems by auto
  then have f: "list_all (\<lambda>b. \<not> requires_grad (\<tau> b)) ps = list_all (\<lambda>b. \<not> requires_grad (\<sigma> b)) ps"
    by (simp only: list_all_iff)
  show ?case by (simp only: trainable_first_Cons h t f)
qed

lemma trainable_first_other:
  assumes "a \<notin> set ps" "trainable_first \<sigma> ps"
  shows "trainable_first (\<sigma>(a := t)) ps"
proof -
  have "trainable_first (\<sigma>(a := t)) ps = trainable_first \<sigma> ps"
  proof (rule trainable_first_cong)
    fix b assume "b \<in> set ps"
    with assms(1) have "b \<noteq> a" by auto
    then show "requires_grad ((\<sigma>(a := t)) b) = requires_grad (\<sigma> b)" by simp
  qed
  with assms(2) show ?thesis by simp
qed

lemma add_all_trainable_first:
  assumes "distinct ps" "trainable_first \<sigma> ps" "list_all (\<lambda>r. length r = 1) rs"
  shows "add_all (zip ps (map2 (\<lambda>n sr. \<lparr>nrows = n, ncols = 1, entries = sr\<rparr>)
                              (numels \<sigma> ps) (split_rows rs (numels \<sigma> ps)))) \<sigma>
         = (Inr (), spec_update \<sigma> ps (concat rs))"
  using assms
proof (induction ps arbitrary: \<sigma> rs)
  case Nil
  then show ?case by simp
next
  case (Cons a ps)
  show ?case
  proof (cases "requires_grad (\<sigma> a)")
    case False
    with Cons.prems(2) have fr: "list_all (\<lambda>b. \<not> requires_grad (\<sigma> b)) (a # ps)"
      by (simp add: trainable_first_Cons)
    then have "filter requires_grad (map \<sigma> (a # ps)) = []"
      by (simp add: filter_empty_conv list_all_iff)
    then have "numels \<sigma> (a # ps) = []" by (simp add: numels_def)
    then show ?thesis using spec_update_frozen[OF fr] by simp
  next
    case True
    let ?n = "numel (\<sigma> a)"
    let ?v = "concat (take ?n rs)"
    let ?\<sigma>1 = "\<sigma>(a := add_inplace (\<sigma> a) ?v)"
    from Cons.prems(1) have na: "a \<notin> set ps" and dp: "distinct ps" by simp_all
    have tf: "trainable_first \<sigma> ps" using Cons.prems(2) True by (simp add: trainable_first_Cons)
    have ns: "numels \<sigma> (a # ps) = ?n # numels \<sigma> ps" using True by (simp add: numels_def)
    have rs': "list_all (\<lambda>r. length r = 1) (drop ?n rs)"
      using Cons.prems(3) by (auto simp add: list_all_iff dest: in_set_dropD)
    have ih: "add_all (zip ps (map2 (\<lambda>n sr. \<lparr>nrows = n, ncols = 1, entries = sr\<rparr>)
                              (numels \<sigma> ps) (split_rows (drop ?n rs) (numels \<sigma> ps)))) ?\<sigma>1
         = (Inr (), spec_update ?\<sigma>1 ps (concat (drop ?n rs)))"
    proof -
      have t1: "trainable_first ?\<sigma>1 ps" using na tf by (rule trainable_first_other)
      show ?thesis
        using Cons.IH[of ?\<sigma>1 "drop ?n rs", OF dp t1 rs']
        by (simp only: numels_other[OF na])
    qed
    have eq: "spec_update ?\<sigma>1 ps (concat (drop ?n rs))
        = (spec_update \<sigma> ps (drop ?n (concat rs)))(a := add_inplace (\<sigma> a) (take ?n (concat rs)))"
      using Cons.prems(3)
      by (simp only: spec_update_other[OF na] concat_take_singletons concat_drop_singletons)
    have rhs: "spec_update \<sigma> (a # ps) (concat rs)
        = (spec_update \<sigma> ps (drop ?n (concat rs)))(a := add_inplace (\<sigma> a) (take ?n (concat rs)))"
      using True by (simp only: spec_update.simps if_True)
    have v: "view_as \<lparr>nrows = ?n, ncols = 1, entries = take ?n rs\<rparr> (shape (\<sigma> a)) = Inr ?v"
      by (simp add: view_as_def numel_def)
    have lhs: "add_all (zip (a # ps) (map2 (\<lambda>n sr. \<lparr>nrows = n, ncols = 1, entries = sr\<rparr>)
                              (numels \<sigma> (a # ps)) (split_rows rs (numels \<sigma> (a # ps))))) \<sigma>
        = add_all (zip ps (map2 (\<lambda>n sr. \<lparr>nrows = n, ncols = 1, entries = sr\<rparr>)
                              (numels \<sigma> ps) (split_rows (drop ?n rs) (numels \<sigma> ps)))) ?\<sigma>1"
      using True v by (simp add: ns)
    show ?thesis by (simp only: lhs ih eq rhs)
  qed
qed

lemma update_params_spec:
  assumes "distinct ps" "trainable_first \<sigma> ps" "wf_mat D" "ncols D = 1"
    "sum_list (numels \<sigma> ps) = nrows D"
  shows "update_params ps (numels \<sigma> ps) D \<sigma> = (Inr (), spec_update \<sigma> ps (concat (entries D)))"
proof -
  have "list_all (\<lambda>r. length r = 1) (entries D)"
    using assms(3,4) by (simp add: wf_mat_def)
  from add_all_trainable_first[OF assms(1,2) this] assms(4,5)
  show ?thesis by (simp add: update_params_def torch_split_def)
qed

lemma add_all_flags:
  "requires_grad (snd (add_all pairs \<sigma>) b) = requires_grad (\<sigma> b)"
proof (induction pairs arbitrary: \<sigma>)
  case Nil
  show ?case by simp
next
  case (Cons p pairs)
  obtain c d where p: "p = (c, d)" by (cases p)
  have f: "requires_grad ((\<sigma>(c := add_inplace (\<sigma> c) v)) b) = requires_grad (\<sigma> b)" for v
    by (simp add: add_inplace_def)
  show ?case
  proof (cases "requires_grad (\<sigma> c)")
    case False
    then have "add_all (p # pairs) \<sigma> = add_all pairs \<sigma>" by (simp add: p)
    then show ?thesis by (simp only: Cons.IH)
  next
    case True
    show ?thesis
    proof (cases "view_as d (shape (\<sigma> c))")
      case (Inl e)
      with True have "add_all (p # pairs) \<sigma> = (Inl e, \<sigma>)" by (simp add: p)
      then show ?thesis by simp
    next
      case (Inr v)
      with True have "add_all (p # pairs) \<sigma> = add_all pairs (\<sigma>(c := add_inplace (\<sigma> c) v))"
        by (simp add: p)
      then show ?thesis by (simp only: Cons.IH f)
    qed
  qed
qed

lemma add_all_frozen:
  "\<not> requires_grad (\<sigma> a) \<Longrightarrow> snd (add_all pairs \<sigma>) a = \<sigma> a"
proof (induction pairs arbitrary: \<sigma>)
  case Nil
  show ?case by simp
next
  case (Cons p pairs)
  obtain c d where p: "p = (c, d)" by (cases p)
  show ?case
  proof (cases "requires_grad (\<sigma> c)")
    case False
    then have "add_all (p # pairs) \<sigma> = add_all pairs \<sigma>" by (simp add: p)
    then show ?thesis using Cons.IH[of \<sigma>] Cons.prems by simp
  next
    case True
    with Cons.prems have ne: "a \<noteq> c" by auto
    show ?thesis
    proof (cases "view_as d (shape (\<sigma> c))")
      case (Inl e)
      with True have "add_all (p # pairs) \<sigma> = (Inl e, \<sigma>)" by (simp add: p)
      then show ?thesis by simp
    next
      case (Inr v)
      let ?\<tau> = "\<sigma>(c := add_inplace (\<sigma> c) v)"
      have t: "?\<tau> a = \<sigma> a" using ne by simp
      then have "\<not> requires_grad (?\<tau> a)" using Cons.prems by simp
      then have "snd (add_all pairs ?\<tau>) a = ?\<tau> a" by (rule Cons.IH[of ?\<tau>])
      moreover from True Inr have "add_all (p # pairs) \<sigma> = add_all pairs ?\<tau>"
        by (simp add: p)
      ultimately show ?thesis by (simp only: t)
    qed
  qed
qed

lemma update_params_frozen:
  "\<not> requires_grad (\<sigma> a) \<Longrightarrow> snd (update_params ps ns D \<sigma>) a = \<sigma> a"
  "requires_grad (snd (update_params ps ns D \<sigma>) b) = requires_grad (\<sigma> b)"
  by (simp_all add: update_params_def add_all_frozen add_all_flags split: sum.splits)

lemma for_groups_frozen:
  assumes "\<And>pg \<tau> a. \<not> requires_grad (\<tau> a) \<Longrightarrow> snd (body pg \<tau>) a = \<tau> a"
    and "\<And>pg \<tau> b. requires_grad (snd (body pg \<tau>) b) = requires_grad (\<tau> b)"
  shows "\<not> requires_grad (\<sigma> a) \<Longrightarrow> snd (for_groups body pgs \<sigma>) a = \<sigma> a"
proof (induction pgs arbitrary: \<sigma>)
  case Nil
  show ?case by simp
next
  case (Cons pg pgs)
  obtain r \<tau> where b: "body pg \<sigma> = (r, \<tau>)" by (cases "body pg \<sigma>")
  from assms(1)[of \<sigma> a pg] assms(2)[of pg \<sigma> a] Cons.prems b
  have t: "\<tau> a = \<sigma> a" "\<not> requires_grad (\<tau> a)" by simp_all
  show ?case
  proof (cases r)
    case (Inl e)
    with b t show ?thesis by simp
  next
    case (Inr u)
    with b t Cons.IH[of \<tau>] show ?thesis by simp
  qed
qed

lemma finish_step_store: "snd (finish_step m k x targets r) = snd r"
  by (auto simp add: finish_step_def split: prod.splits sum.splits)

lemma step_leaves_frozen_parameters:
  assumes "\<not> requires_grad (\<sigma> a)"
  shows "snd (GaussNewton_step la gn x targets \<sigma>) a = \<sigma> a"
    and "snd (LevenbergMarquardt_step lm x targets \<sigma>) a = \<sigma> a"
proof -
  have g: "snd (for_groups (gn_group la fast m x E K) pgs \<sigma>) a = \<sigma> a" for fast m E K pgs
    using _ _ assms
  proof (rule for_groups_frozen)
    fix pg \<tau> b
    show "\<not> requires_grad (\<tau> b) \<Longrightarrow> snd (gn_group la fast m x E K pg \<tau>) b = \<tau> b"
      by (simp add: gn_group_def update_params_frozen split: sum.splits)
    show "requires_grad (snd (gn_group la fast m x E K pg \<tau>) b) = requires_grad (\<tau> b)"
      by (simp add: gn_group_def update_params_frozen split: sum.splits)
  qed
  have l: "snd (for_groups (lm_group m x E K) pgs \<sigma>) a = \<sigma> a" for m E K pgs
    using _ _ assms
  proof (rule for_groups_frozen)
    fix pg \<tau> b
    show "\<not> requires_grad (\<tau> b) \<Longrightarrow> snd (lm_group m x E K pg \<tau>) b = \<tau> b"
      by (simp add: lm_group_def update_params_frozen split: sum.splits)
    show "requires_grad (snd (lm_group m x E K pg \<tau>) b) = requires_grad (\<tau> b)"
      by (simp add: lm_group_def update_params_frozen split: sum.splits)
  qed
  show "snd (GaussNewton_step la gn x targets \<sigma>) a = \<sigma> a"
    using g by (simp add: GaussNewton_step_def finish_step_store split: sum.splits)
  show "snd (LevenbergMarquardt_step lm x targets \<sigma>) a = \<sigma> a"
    using l by (simp add: LevenbergMarquardt_step_def finish_step_store split: sum.splits)
qed

lemma LevenbergMarquardt_init_positive_damping:
  "0 < dmp \<Longrightarrow> parameters m \<noteq> []
    \<Longrightarrow> \<exists>lm. LevenbergMarquardt_init m dmp krn mn mx = Inr lm
          \<and> lm_param_groups lm
              = [\<lparr>params = parameters m,
                  options = \<lparr>damping = dmp, clamp_min = mn, clamp_max = mx\<rparr>\<rparr>]"
  by (simp add: LevenbergMarquardt_init_def Optimizer_init_def)

subsection \<open>Construction\<close>

text \<open>
  C5. A damping factor that is not positive is refused by the constructor before the
  base class registers any parameter group, but the exception raised is an
  \<^verbatim>\<open>AssertionError\<close> (whose argument is the \<^verbatim>\<open>ValueError\<close>), not a \<^verbatim>\<open>ValueError\<close>;
  here at damping 0, for every model, kernel and clamp bounds.
\<close>

theorem LevenbergMarquardt_init_nonpositive_damping:
  "LevenbergMarquardt_init m 0 krn mn mx
     = Inl (AssertionError (ValueError ''Invalid damping factor''))
   \<and> \<not> is_ValueError (AssertionError (ValueError ''Invalid damping factor''))"
  by (simp add: LevenbergMarquardt_init_def)

subsection \<open>The residual\<close>

text \<open>
  C8 says that without targets the residual is the column of the negated entries of the
  output, for every input. For the model whose output is the transpose of its parameter,
  the tensor \<open>[[1, 4], [2, 5], [3, 6]]\<close> of strides \<open>(1, 3)\<close>, that column is
  \<open>[-1, -4, -2, -5, -3, -6]\<close>, but \<^verbatim>\<open>outputs.view(-1, 1)\<close> raises: the residual, and with
  it the step of either optimizer that the constructors build on the model, fails with
  a \<open>RuntimeError\<close>.
\<close>

theorem residual_raises_on_transposed_output:
  "LevenbergMarquardt_init transposed_model 3 None (1 / 10 ^ 6) (10 ^ 32)
     = Inr (lm_over transposed_model [[1]])
   \<and> GaussNewton_init transposed_model None False None None
     = Inr (gn_over transposed_model False [[1]])
   \<and> forward transposed_model (map matrix_store (parameters transposed_model)) ()
     = Single \<lparr>shape = [3, 2], strides = [1, 3], data = [1, 4, 2, 5, 3, 6],
                requires_grad = True\<rparr>
   \<and> residual transposed_model matrix_store () None
     = Inl (RuntimeError ''view size is not compatible with input tensor size and stride'')
   \<and> LevenbergMarquardt_step (lm_over transposed_model [[1]]) () None matrix_store
     = (Inl (RuntimeError ''view size is not compatible with input tensor size and stride''),
        matrix_store)
   \<and> GaussNewton_step la (gn_over transposed_model False [[1]]) () None matrix_store
     = (Inl (RuntimeError ''view size is not compatible with input tensor size and stride''),
        matrix_store)"
  by (simp add: step_defs tensor_defs example_defs transposed_model_def transposed_def
      matrix_store_def upt_rec)

text \<open>
  The residual on the outputs that can be viewed as a column. Without targets the
  residual is the column of the negated entries of the output, for a tuple of outputs the
  entries of its tensors one after the other in the order of the tuple. With targets it
  is the column of the entries of the differences \<open>target - output\<close> of the pairs, in
  that order; for contiguous targets of the form and shapes of contiguous outputs these
  are the entries of the targets minus the entries of the outputs. The same holds for a
  single output tensor. An output, or a difference, that cannot be viewed as a column
  makes the residual raise.
\<close>

theorem residual_target_minus_output:
  assumes "forward m (map \<sigma> (parameters m)) x = outs"
  shows "(outs = Tuple us \<and> us \<noteq> [] \<and> list_all flat_viewable us
      \<longrightarrow> residual m \<sigma> x None
          = Inr \<lparr>nrows = sum_list (map numel us), ncols = 1,
                 entries = map (\<lambda>v. [- v]) (concat (map data us))\<rparr>)
   \<and> (outs = Single u \<and> flat_viewable u
      \<longrightarrow> residual m \<sigma> x None
          = Inr \<lparr>nrows = numel u, ncols = 1, entries = map (\<lambda>v. [- v]) (data u)\<rparr>)
   \<and> (outs = Tuple us \<and> py_iter tg = Inr ts
        \<and> map (\<lambda>(t, u). tsub t u) (zip ts us) = map Inr ds \<and> ds \<noteq> []
        \<and> list_all flat_viewable ds
      \<longrightarrow> residual m \<sigma> x (Some tg)
          = Inr \<lparr>nrows = sum_list (map numel ds), ncols = 1,
                 entries = map (\<lambda>v. [v]) (concat (map data ds))\<rparr>)
   \<and> (outs = Single u \<and> tsub t u = Inr d \<and> flat_viewable d
      \<longrightarrow> residual m \<sigma> x (Some (Single t))
          = Inr \<lparr>nrows = numel d, ncols = 1, entries = map (\<lambda>v. [v]) (data d)\<rparr>)
   \<and> (outs = Tuple us \<and> us \<noteq> []
        \<and> list_all2 (\<lambda>t u. shape t = shape u \<and> wf_tensor t \<and> wf_tensor u
                             \<and> is_contiguous t \<and> is_contiguous u) ts us
      \<longrightarrow> residual m \<sigma> x (Some (Tuple ts))
          = Inr (col (map2 (-) (concat (map data ts)) (concat (map data us)))))
   \<and> (outs = Single u \<and> shape t = shape u \<and> wf_tensor t \<and> wf_tensor u
        \<and> is_contiguous t \<and> is_contiguous u
      \<longrightarrow> residual m \<sigma> x (Some (Single t)) = Inr (col (map2 (-) (data t) (data u))))
   \<and> (outs = Single u \<and> \<not> flat_viewable u
      \<longrightarrow> residual m \<sigma> x None
          = Inl (RuntimeError ''view size is not compatible with input tensor size and stride''))
   \<and> (outs = Single u \<and> tsub t u = Inr d \<and> \<not> flat_viewable d
      \<longrightarrow> residual m \<sigma> x (Some (Single t))
          = Inl (RuntimeError ''view size is not compatible with input tensor size and stride''))"
proof -
  have general: "residual m \<sigma> x (Some tg)
      = Inr \<lparr>nrows = sum_list (map numel ds), ncols = 1,
             entries = map (\<lambda>v. [v]) (concat (map data ds))\<rparr>"
    if "outs = Tuple us" "py_iter tg = Inr ts"
      "map (\<lambda>(t, u). tsub t u) (zip ts us) = map Inr ds" "ds \<noteq> []"
      "list_all flat_viewable ds" for tg ts ds
    using that assms sub_cols_all[OF that(3,5)] cat_view_cols[OF that(4)]
    by (simp add: residual_def)
  have matched: "residual m \<sigma> x (Some (Tuple ts))
      = Inr (col (map2 (-) (concat (map data ts)) (concat (map data us))))"
    if o: "outs = Tuple us" and ne: "us \<noteq> []"
      and all: "list_all2 (\<lambda>t u. shape t = shape u \<and> wf_tensor t \<and> wf_tensor u
                                  \<and> is_contiguous t \<and> is_contiguous u) ts us"
  proof -
    from tsub_matched[OF all] obtain ds where
      ds: "map (\<lambda>(t, u). tsub t u) (zip ts us) = map Inr ds" "length ds = length us"
      "sum_list (map numel ds) = length (map2 (-) (concat (map data ts)) (concat (map data us)))"
      "concat (map data ds) = map2 (-) (concat (map data ts)) (concat (map data us))"
      and fv: "list_all flat_viewable ds"
      by blast
    from ds(2) ne have "ds \<noteq> []" by auto
    from general[OF o _ ds(1) this fv, of "Tuple ts"] ds(3,4)
    show ?thesis by (simp add: py_iter_def col_def)
  qed
  have single: "residual m \<sigma> x (Some (Single t)) = Inr (col (map2 (-) (data t) (data u)))"
    if "outs = Single u" "shape t = shape u" "wf_tensor t" "wf_tensor u"
      "is_contiguous t" "is_contiguous u"
  proof -
    let ?d = "\<lparr>shape = shape u, strides = contiguous_strides (shape u),
               data = map2 (-) (data t) (data u), requires_grad = False\<rparr>"
    have "flat_viewable ?d" by (rule flat_viewable_row_major) simp
    then have "view_col ?d = Inr (column_of ?d)" by (rule view_col_viewable)
    with that assms tsub_same_shape[OF that(2-6)] show ?thesis
      by (simp add: residual_def column_of_def col_def numel_def wf_tensor_def)
  qed
  have none_tuple: "residual m \<sigma> x None
      = Inr \<lparr>nrows = sum_list (map numel us), ncols = 1,
             entries = map (\<lambda>v. [- v]) (concat (map data us))\<rparr>"
    if "outs = Tuple us" "us \<noteq> []" "list_all flat_viewable us"
    using that assms neg_cols_all[OF that(3)] cat_neg_view_cols[OF that(2)]
    by (simp add: residual_def)
  show ?thesis
    using assms general matched single none_tuple
    by (auto simp add: residual_def view_col_def column_of_def neg_mat_def)
qed


theorem residual_target_minus_output_witness:
  "residual pair_model scalar_store [1, 2, 3, 4, 5] None = Inr (col [- 1, - 2, - 3, - 4, - 5])
   \<and> residual pair_model scalar_store [1, 2, 3, 4, 5]
        (Some (Tuple [\<lparr>shape = [3, 1], strides = [1, 1], data = [10, 20, 30],
                       requires_grad = False\<rparr>,
                      \<lparr>shape = [2, 1], strides = [1, 1], data = [40, 50],
                       requires_grad = False\<rparr>]))
       = Inr (col [9, 18, 27, 36, 45])
   \<and> residual concat_model concat_store () None = Inr (col [- 4, - 4, - 4, - 4])
   \<and> residual concat_model concat_store ()
        (Some (Single \<lparr>shape = [4], strides = [1], data = [1, 2, 3, 4], requires_grad = False\<rparr>))
       = Inr (col [- 3, - 2, - 1, 0])
   \<and> residual transposed_model matrix_store () None
       = Inl (RuntimeError ''view size is not compatible with input tensor size and stride'')"
proof -
  let ?o1 = "\<lparr>shape = [3, 1], strides = [1, 1], data = [1, 2, 3], requires_grad = False\<rparr>"
  let ?o2 = "\<lparr>shape = [2, 1], strides = [1, 1], data = [4, 5], requires_grad = False\<rparr>"
  let ?t1 = "\<lparr>shape = [3, 1], strides = [1, 1], data = [10, 20, 30], requires_grad = False\<rparr>"
  let ?t2 = "\<lparr>shape = [2, 1], strides = [1, 1], data = [40, 50], requires_grad = False\<rparr>"
  let ?u = "\<lparr>shape = [4], strides = [1], data = [4, 4, 4, 4], requires_grad = False\<rparr>"
  let ?t = "\<lparr>shape = [4], strides = [1], data = [1, 2, 3, 4], requires_grad = False\<rparr>"
  have f1: "forward pair_model (map scalar_store (parameters pair_model)) [1, 2, 3, 4, 5]
      = Tuple [?o1, ?o2]"
    by (simp add: pair_model_def)
  have f2: "forward concat_model (map concat_store (parameters concat_model)) () = Single ?u"
    by (simp add: concat_model_def concat_store_def scalar_tensor_def)
  let ?w = "\<lparr>shape = [3, 2], strides = [1, 3], data = [1, 4, 2, 5, 3, 6], requires_grad = True\<rparr>"
  have f3: "forward transposed_model (map matrix_store (parameters transposed_model)) ()
      = Single ?w"
    by (simp add: transposed_model_def transposed_def matrix_store_def upt_rec)
  have v1: "list_all flat_viewable [?o1, ?o2]"
    by (simp add: flat_viewable_def view_ok_def numel_def)
  have v2: "flat_viewable ?u"
    by (simp add: flat_viewable_def view_ok_def numel_def)
  have v3: "\<not> flat_viewable ?w"
    by (simp add: flat_viewable_def view_ok_def numel_def)
  have m1: "list_all2 (\<lambda>t u. shape t = shape u \<and> wf_tensor t \<and> wf_tensor u
                             \<and> is_contiguous t \<and> is_contiguous u) [?t1, ?t2] [?o1, ?o2]"
    by (simp add: wf_tensor_def numel_def is_contiguous_def)
  have m2: "shape ?t = shape ?u" "wf_tensor ?t" "wf_tensor ?u" "is_contiguous ?t"
    "is_contiguous ?u"
    by (simp_all add: wf_tensor_def numel_def is_contiguous_def)
  note T1 = residual_target_minus_output[OF f1, where us = "[?o1, ?o2]" and ts = "[?t1, ?t2]"]
  note T2 = residual_target_minus_output[OF f2, where u = ?u and t = ?t]
  note T3 = residual_target_minus_output[OF f3, where u = ?w]
  from T1 v1 have "residual pair_model scalar_store [1, 2, 3, 4, 5] None
      = Inr (col [- 1, - 2, - 3, - 4, - 5])"
    by (simp add: col_def numel_def)
  moreover from T1 m1 have "residual pair_model scalar_store [1, 2, 3, 4, 5] (Some (Tuple [?t1, ?t2]))
      = Inr (col [9, 18, 27, 36, 45])"
    by simp
  moreover from T2 v2 have "residual concat_model concat_store () None
      = Inr (col [- 4, - 4, - 4, - 4])"
    by (simp add: col_def numel_def)
  moreover from T2 m2 have "residual concat_model concat_store () (Some (Single ?t))
      = Inr (col [- 3, - 2, - 1, 0])"
    by simp
  moreover from T3 v3 have "residual transposed_model matrix_store () None
      = Inl (RuntimeError ''view size is not compatible with input tensor size and stride'')"
    by simp
  ultimately show ?thesis by simp
qed

subsection \<open>The linear system that is solved\<close>

text \<open>
  C6. For a Jacobian \<open>J\<close> with \<open>M\<close> rows and columns \<open>K\<close> and \<open>E\<close> of length \<open>M\<close>, the
  right-hand side \<^verbatim>\<open>K.T * J.T @ E\<close> of the program is \<open>J\<^sup>T (K \<odot> E)\<close>: the kernel weight
  multiplies each residual entry before the reduction over the rows of \<open>J\<close>. This vector
  is the one passed to \<^verbatim>\<open>lstsq\<close>, multiplied by the pseudo-inverse, and passed to
  \<^verbatim>\<open>cholesky_solve\<close>.
\<close>

theorem weighted_gradient_before_reduction:
  assumes "wf_mat J" and "wf_mat K" and "wf_mat E"
    and "nrows K = nrows J" and "nrows E = nrows J" and "ncols K = 1" and "ncols E = 1"
  shows "weighted_gradient J K E = spec_weighted_gradient J K E
    \<and> gn_solve la True gopts J K E
        = bindE (matmul (transpose_mat J) J)
            (\<lambda>A. bindE (spec_weighted_gradient J K E)
               (\<lambda>b. lstsq la A b (rcond gopts) (driver gopts)))
    \<and> gn_solve la False gopts J K E
        = bindE (matmul (transpose_mat J) J)
            (\<lambda>A. bindE (pinverse la A)
               (\<lambda>P. bindE (spec_weighted_gradient J K E) (\<lambda>b. matmul P b)))
    \<and> lm_solve lopts J K E
        = bindE (lm_matrix lopts J)
            (\<lambda>A. bindE (spec_weighted_gradient J K E)
               (\<lambda>b. bindE (cholesky A) (\<lambda>L. cholesky_solve b L)))"
  using weighted_gradient_spec[OF assms] by (simp add: gn_solve_def lm_solve_def)

theorem weighted_gradient_before_reduction_witness:
  "wf_mat (col [1, 2]) \<and> wf_mat (col [1, 3]) \<and> wf_mat (col [5, 7])
   \<and> weighted_gradient (col [1, 2]) (col [1, 3]) (col [5, 7]) = Inr (col [47])
   \<and> spec_weighted_gradient (col [1, 2]) (col [1, 3]) (col [5, 7]) = Inr (col [47])
   \<and> gn_solve scalar_linalg True \<lparr>rcond = None, driver = None\<rparr> (col [1, 2]) (col [1, 3]) (col [5, 7])
       = Inr (col [47 / 5])
   \<and> gn_solve scalar_linalg False \<lparr>rcond = None, driver = None\<rparr> (col [1, 2]) (col [1, 3]) (col [5, 7])
       = Inr (col [47 / 5])
   \<and> lm_solve (lm_defaults 3) (col [1, 2]) (col [1, 3]) (col [5, 7]) = Inr (col [47 / 20])"
proof -
  have w: "wf_mat (col [1, 2])" "wf_mat (col [1, 3])" "wf_mat (col [5, 7])"
    by (simp_all add: wf_mat_def col_def)
  have h: "nrows (col [1, 3]) = nrows (col [1, 2])" "nrows (col [5, 7]) = nrows (col [1, 2])"
    "ncols (col [1, 3]) = 1" "ncols (col [5, 7]) = 1"
    by (simp_all add: col_def)
  have s: "spec_weighted_gradient (col [1, 2]) (col [1, 3]) (col [5, 7]) = Inr (col [47])"
    by (simp add: spec_weighted_gradient_def matmul_def transpose_mat_def hadamard_def col_def
        column_def dot_def)
  have A: "matmul (transpose_mat (col [1, 2])) (col [1, 2]) = Inr \<lparr>nrows = 1, ncols = 1, entries = [[5]]\<rparr>"
    by (simp add: matmul_def transpose_mat_def col_def column_def dot_def)
  have L: "lm_matrix (lm_defaults 3) (col [1, 2]) = Inr \<lparr>nrows = 1, ncols = 1, entries = [[20]]\<rparr>"
    by (simp add: lm_matrix_def A bindE_def diagonal_def diagonal_add_def lm_defaults_def clamp_def)
  have c: "cholesky \<lparr>nrows = 1, ncols = 1, entries = [[20]]\<rparr> = Inr \<lparr>nrows = 1, ncols = 1, entries = [[sqrt 20]]\<rparr>"
    by (simp add: cholesky_def bindE_def dot_def)
  have cs: "cholesky_solve (col [47]) \<lparr>nrows = 1, ncols = 1, entries = [[sqrt 20]]\<rparr> = Inr (col [47 / 20])"
    by (simp add: cholesky_solve_def col_def transpose_mat_def column_def back_subst_def dot_def)
  have l: "lstsq scalar_linalg \<lparr>nrows = 1, ncols = 1, entries = [[5]]\<rparr> (col [47]) None None
           = Inr (col [47 / 5])"
    by (simp add: lstsq_def scalar_linalg_def bindE_def tabulate_def col_def)
  have p: "bindE (pinverse scalar_linalg \<lparr>nrows = 1, ncols = 1, entries = [[5]]\<rparr>)
             (\<lambda>P. matmul P (col [47])) = Inr (col [47 / 5])"
    by (simp add: pinverse_def scalar_linalg_def bindE_def tabulate_def col_def matmul_def
        column_def dot_def)
  have p': "bindE (pinverse scalar_linalg \<lparr>nrows = 1, ncols = 1, entries = [[5]]\<rparr>)
             (\<lambda>P. bindE (Inr (col [47])) (\<lambda>b. matmul P b)) = Inr (col [47 / 5])"
    using p by (simp add: bindE_def)
  note T = weighted_gradient_before_reduction[OF w h, of scalar_linalg
      "\<lparr>rcond = None, driver = None\<rparr>" "lm_defaults 3", unfolded s A L]
  from T have "weighted_gradient (col [1, 2]) (col [1, 3]) (col [5, 7]) = Inr (col [47])"
    by simp
  moreover from T have "gn_solve scalar_linalg True \<lparr>rcond = None, driver = None\<rparr>
      (col [1, 2]) (col [1, 3]) (col [5, 7]) = Inr (col [47 / 5])"
    using l by simp
  moreover from T have "gn_solve scalar_linalg False \<lparr>rcond = None, driver = None\<rparr>
      (col [1, 2]) (col [1, 3]) (col [5, 7]) = Inr (col [47 / 5])"
    using p' by simp
  moreover from T have "lm_solve (lm_defaults 3) (col [1, 2]) (col [1, 3]) (col [5, 7])
      = Inr (col [47 / 20])"
    using c cs by simp
  ultimately show ?thesis using w s by simp
qed

text \<open>
  C7. The matrix that \<^verbatim>\<open>LevenbergMarquardt.step\<close> factorizes is \<open>J\<^sup>T J\<close> with
  \<open>\<lambda> \<cdot> clamp((J\<^sup>T J)\<^sub>i\<^sub>i, min, max)\<close> added to the \<open>i\<close>-th entry of its diagonal, for the
  damping and the bounds of the group: for every well-formed \<open>J\<close>, and so in the
  iteration of every group, whose Jacobian is well formed.
\<close>

theorem lm_damped_matrix:
  "(wf_mat J
      \<longrightarrow> lm_matrix opts J = Inr (damped_normal_matrix opts J)
        \<and> lm_solve opts J K E
            = bindE (weighted_gradient J K E)
                (\<lambda>b. bindE (cholesky (damped_normal_matrix opts J)) (\<lambda>L. cholesky_solve b L)))
   \<and> lm_group m x E K pg \<sigma>
       = (case bindE (weighted_gradient (modjac m \<sigma> x) K E)
                 (\<lambda>b. bindE (cholesky (damped_normal_matrix (options pg) (modjac m \<sigma> x)))
                        (\<lambda>L. cholesky_solve b L)) of
            Inl e \<Rightarrow> (Inl e, \<sigma>)
          | Inr D \<Rightarrow> update_params (params pg) (numels \<sigma> (params pg)) D \<sigma>)"
  using lm_matrix_spec[of J opts] lm_matrix_spec[OF wf_modjac, of "options pg" m \<sigma> x]
  by (simp add: lm_solve_def lm_group_def Let_def)

theorem lm_damped_matrix_witness:
  "wf_mat (col [1, 2])
   \<and> lm_matrix (lm_defaults 3) (col [1, 2]) = Inr \<lparr>nrows = 1, ncols = 1, entries = [[20]]\<rparr>
   \<and> damped_normal_matrix (lm_defaults 3) (col [1, 2]) = \<lparr>nrows = 1, ncols = 1, entries = [[20]]\<rparr>"
proof -
  have w: "wf_mat (col [1, 2])" by (simp add: wf_mat_def col_def)
  have d: "damped_normal_matrix (lm_defaults 3) (col [1, 2]) = \<lparr>nrows = 1, ncols = 1, entries = [[20]]\<rparr>"
    by (simp add: damped_normal_matrix_def tabulate_def gram_def col_def lm_defaults_def clamp_def
        lessThan_Suc numeral_2_eq_2)
  have "lm_matrix (lm_defaults 3) (col [1, 2])
      = Inr (damped_normal_matrix (lm_defaults 3) (col [1, 2]))"
    using lm_damped_matrix[where J = "col [1, 2]" and opts = "lm_defaults 3" and K = "col [1, 3]"
        and E = "col [5, 7]" and m = "scalar_model [1] 0" and \<sigma> = scalar_store and x = "()"
        and pg = "\<lparr>params = [1], options = lm_defaults 3\<rparr>"] w
    by blast
  then show ?thesis using w d by simp
qed

subsection \<open>The step on concrete configurations\<close>

text \<open>
  C1. On a group that lists a frozen parameter before a trainable one the update is
  misaligned: \<^verbatim>\<open>zip(pg['params'], D)\<close> pairs the slices, which are cut for the trainable
  parameters only, with all parameters of the group in order. For the optimizer that
  the constructor builds on the model with the frozen parameter 0 and the trainable
  parameter 1, the solve gives the update \<open>- 5 / 4\<close> and the step leaves the whole
  store, the trainable parameter included, as it was, where the update as specified
  changes the trainable parameter from 5 to \<open>15 / 4\<close>.
\<close>

theorem step_skips_trainable_after_frozen:
  "LevenbergMarquardt_init (scalar_model [0, 1] 1) 3 None (1 / 10 ^ 6) (10 ^ 32)
     = Inr (lm_over (scalar_model [0, 1] 1) [[0, 1]])
   \<and> residual (scalar_model [0, 1] 1) scalar_store () (Some (Tuple [scalar_tensor 0 False]))
     = Inr (col [- 5])
   \<and> lm_solve (lm_defaults 3) (modjac (scalar_model [0, 1] 1) scalar_store ()) (col [1]) (col [- 5])
     = Inr (col [- (5 / 4)])
   \<and> LevenbergMarquardt_step (lm_over (scalar_model [0, 1] 1) [[0, 1]]) ()
       (Some (Tuple [scalar_tensor 0 False])) scalar_store
     = (Inr 25, scalar_store)
   \<and> spec_update scalar_store [0, 1] [- (5 / 4)]
     = scalar_store(1 := scalar_tensor (15 / 4) True)
   \<and> scalar_store 1 = scalar_tensor 5 True"
  by (simp add: step_defs tensor_defs matrix_defs example_defs)

text \<open>
  C3 as stated fails: a \<open>targets\<close> tuple of two tensors against an output tuple of one
  tensor, and a target of shape \<open>[2]\<close> against an output of shape \<open>[1]\<close>, raise
  nothing; the step returns a loss and has changed the parameter.
\<close>

theorem step_accepts_disagreeing_targets:
  "LevenbergMarquardt_step (lm_over (scalar_model [1] 0) [[1]]) ()
       (Some (Tuple [scalar_tensor 0 False, scalar_tensor 7 False])) scalar_store
     = (Inr (225 / 16), scalar_store(1 := scalar_tensor (15 / 4) True))
   \<and> LevenbergMarquardt_step (lm_over (scalar_model [1] 0) [[1]]) ()
       (Some (Tuple [\<lparr>shape = [2], strides = [1], data = [0, 0], requires_grad = False\<rparr>])) scalar_store
     = (Inr (25 / 2), scalar_store(1 := scalar_tensor (5 / 2) True))
   \<and> scalar_store 1 = scalar_tensor 5 True"
  by (simp add: step_defs tensor_defs matrix_defs example_defs upt_rec numeral_2_eq_2)

text \<open>
  C3, amended. When the evaluation of the residual raises, the step call of either
  optimizer fails with that error and leaves every parameter unchanged.
\<close>

theorem step_fails_unchanged_when_residual_raises:
  "(residual (gn_model gn) \<sigma> x targets = Inl e
      \<longrightarrow> GaussNewton_step la gn x targets \<sigma> = (Inl e, \<sigma>))
   \<and> (residual (lm_model lm) \<sigma> x targets = Inl e
      \<longrightarrow> LevenbergMarquardt_step lm x targets \<sigma> = (Inl e, \<sigma>))"
  by (simp add: GaussNewton_step_def LevenbergMarquardt_step_def)

theorem step_fails_unchanged_when_residual_raises_witness:
  "residual concat_model concat_store ()
       (Some (Single \<lparr>shape = [3], strides = [1], data = [0, 0, 0], requires_grad = False\<rparr>))
     = Inl (RuntimeError ''The size of tensor a must match the size of tensor b'')
   \<and> GaussNewton_step scalar_linalg (gn_over concat_model False [[0, 1, 2, 3]]) ()
       (Some (Single \<lparr>shape = [3], strides = [1], data = [0, 0, 0], requires_grad = False\<rparr>)) concat_store
     = (Inl (RuntimeError ''The size of tensor a must match the size of tensor b''), concat_store)
   \<and> LevenbergMarquardt_step (lm_over concat_model [[0, 1, 2, 3]]) ()
       (Some (Single \<lparr>shape = [3], strides = [1], data = [0, 0, 0], requires_grad = False\<rparr>)) concat_store
     = (Inl (RuntimeError ''The size of tensor a must match the size of tensor b''), concat_store)"
proof -
  let ?t = "\<lparr>shape = [3], strides = [1], data = [0, 0, 0], requires_grad = False\<rparr>"
  let ?e = "RuntimeError ''The size of tensor a must match the size of tensor b''"
  have r: "residual concat_model concat_store () (Some (Single ?t)) = Inl ?e"
    by (simp add: residual_def concat_model_def tsub_def broadcast_shape_def bdim_def)
  have g: "gn_model (gn_over concat_model False [[0, 1, 2, 3]]) = concat_model"
    and l: "lm_model (lm_over concat_model [[0, 1, 2, 3]]) = concat_model"
    by (simp_all add: gn_over_def lm_over_def)
  note T = step_fails_unchanged_when_residual_raises
    [of "gn_over concat_model False [[0, 1, 2, 3]]" concat_store "()" "Some (Single ?t)" ?e
        scalar_linalg "lm_over concat_model [[0, 1, 2, 3]]", unfolded g l]
  from T r show ?thesis by blast
qed

text \<open>
  C4 says that a step on a group either updates the whole group or fails before any
  parameter of the group is modified. With the group of the constructor on a model whose
  second parameter is frozen, the pairing of the slices with all parameters of the group
  gives parameter 0 its slice, drops the slice of parameter 2 at the frozen parameter and
  pairs parameter 2 with the slice of two entries of parameter 3: the step has added to
  parameter 0, from 4 to 3, when \<^verbatim>\<open>view\<close> raises, and the other parameters are as they
  were. The Jacobian has the 4 columns of the trainable entries; it has the same columns
  when the frozen parameter is a tensor without entries, where the step does the same.
\<close>

theorem step_fails_after_partial_update:
  "LevenbergMarquardt_init concat_model 3 None (1 / 10 ^ 6) (10 ^ 32)
     = Inr (lm_over concat_model [[0, 1, 2, 3]])
   \<and> LevenbergMarquardt_step (lm_over concat_model [[0, 1, 2, 3]]) () None concat_store
     = (Inl (RuntimeError ''shape is invalid for input size''),
        concat_store(0 := scalar_tensor 3 True))
   \<and> concat_store 0 = scalar_tensor 4 True
   \<and> LevenbergMarquardt_step (lm_over concat_model [[0, 1, 2, 3]]) () None
       (concat_store(1 := \<lparr>shape = [0], strides = [1], data = [], requires_grad = False\<rparr>))
     = (Inl (RuntimeError ''shape is invalid for input size''),
        concat_store(1 := \<lparr>shape = [0], strides = [1], data = [], requires_grad = False\<rparr>,
                     0 := scalar_tensor 3 True))
   \<and> modjac concat_model
        (concat_store(1 := \<lparr>shape = [0], strides = [1], data = [], requires_grad = False\<rparr>)) ()
     = \<lparr>nrows = 4, ncols = 4,
        entries = [[1, 0, 0, 0], [0, 1, 0, 0], [0, 0, 1, 0], [0, 0, 0, 1]]\<rparr>"
  by (simp add: step_defs tensor_defs matrix_defs example_defs upt_rec)

text \<open>
  Where the misaligned pairing does not come in, the step is atomic on a group. A failure
  of the linear solver, in particular of the Cholesky factorization, is the error of the
  group's iteration and of a step over one group, and is raised before any addition: the
  store is unchanged. For a group that lists no frozen parameter ahead of a trainable one, an
  iteration that raises at all leaves the store unchanged, and one that returns has
  updated the whole group: each trainable parameter has received its piece of the
  solution.
\<close>

theorem solver_failure_and_group_atomicity:
  "(lm_solve (options pg) (modjac m \<sigma> x) K E = Inl e
      \<longrightarrow> lm_group m x E K pg \<sigma> = (Inl e, \<sigma>))
   \<and> (gn_solve la fast (options gpg) (modjac m \<sigma> x) K E = Inl e
      \<longrightarrow> gn_group la fast m x E K gpg \<sigma> = (Inl e, \<sigma>))
   \<and> (lm_matrix opts J = Inr A \<longrightarrow> weighted_gradient J K E = Inr b \<longrightarrow> cholesky A = Inl e
      \<longrightarrow> lm_solve opts J K E = Inl e)
   \<and> (lm_param_groups lm = [pg] \<longrightarrow> residual (lm_model lm) \<sigma> x targets = Inr E
      \<longrightarrow> lm_solve (options pg) (modjac (lm_model lm) \<sigma> x) (kernel_weight (lm_kernel lm) E) E = Inl e
      \<longrightarrow> LevenbergMarquardt_step lm x targets \<sigma> = (Inl e, \<sigma>))
   \<and> (gn_param_groups gn = [gpg] \<longrightarrow> residual (gn_model gn) \<sigma> x targets = Inr E
      \<longrightarrow> gn_solve la (gn_fast gn) (options gpg) (modjac (gn_model gn) \<sigma> x)
            (kernel_weight (gn_kernel gn) E) E = Inl e
      \<longrightarrow> GaussNewton_step la gn x targets \<sigma> = (Inl e, \<sigma>))
   \<and> (trainable_first \<sigma> (params pg) \<longrightarrow> ncols E = 1
      \<longrightarrow> lm_group m x E K pg \<sigma> = (Inl e, \<sigma>') \<longrightarrow> \<sigma>' = \<sigma>)
   \<and> (trainable_first \<sigma> (params gpg) \<longrightarrow> ncols E = 1
      \<longrightarrow> gn_group la fast m x E K gpg \<sigma> = (Inl e, \<sigma>') \<longrightarrow> \<sigma>' = \<sigma>)
   \<and> (trainable_first \<sigma> (params pg) \<longrightarrow> distinct (params pg) \<longrightarrow> ncols E = 1
      \<longrightarrow> lm_group m x E K pg \<sigma> = (Inr (), \<sigma>')
      \<longrightarrow> (\<exists>D. lm_solve (options pg) (modjac m \<sigma> x) K E = Inr D
             \<and> \<sigma>' = spec_update \<sigma> (params pg) (concat (entries D))))
   \<and> (trainable_first \<sigma> (params gpg) \<longrightarrow> distinct (params gpg) \<longrightarrow> ncols E = 1
      \<longrightarrow> gn_group la fast m x E K gpg \<sigma> = (Inr (), \<sigma>')
      \<longrightarrow> (\<exists>D. gn_solve la fast (options gpg) (modjac m \<sigma> x) K E = Inr D
             \<and> \<sigma>' = spec_update \<sigma> (params gpg) (concat (entries D))))"
proof -
  have u: "\<sigma>' = spec_update \<sigma> ps (concat (entries D))"
    if "trainable_first \<sigma> ps" "distinct ps" "wf_mat D" "ncols D = 1"
      "update_params ps (numels \<sigma> ps) D \<sigma> = (Inr (), \<sigma>')" for ps D
  proof (cases "sum_list (numels \<sigma> ps) = nrows D")
    case True
    from update_params_spec[OF that(2,1,3,4) True] that(5) show ?thesis by simp
  next
    case False
    with that(5) show ?thesis by (simp add: update_params_def torch_split_def)
  qed
  have c: "\<exists>D. lm_solve (options pg) (modjac m \<sigma> x) K E = Inr D
        \<and> \<sigma>' = spec_update \<sigma> (params pg) (concat (entries D))"
    if "trainable_first \<sigma> (params pg)" "distinct (params pg)" "ncols E = 1"
      "lm_group m x E K pg \<sigma> = (Inr (), \<sigma>')"
  proof (cases "lm_solve (options pg) (modjac m \<sigma> x) K E")
    case (Inl e')
    with that(4) show ?thesis by (simp add: lm_group_def)
  next
    case (Inr D)
    have "update_params (params pg) (numels \<sigma> (params pg)) D \<sigma> = (Inr (), \<sigma>')"
      using that(4) Inr by (simp add: lm_group_def)
    with u[OF that(1,2) lm_solve_dims(3)[OF Inr]] lm_solve_dims(2)[OF Inr] that(3) Inr
    show ?thesis by simp
  qed
  have d: "\<exists>D. gn_solve la fast (options gpg) (modjac m \<sigma> x) K E = Inr D
        \<and> \<sigma>' = spec_update \<sigma> (params gpg) (concat (entries D))"
    if "trainable_first \<sigma> (params gpg)" "distinct (params gpg)" "ncols E = 1"
      "gn_group la fast m x E K gpg \<sigma> = (Inr (), \<sigma>')"
  proof (cases "gn_solve la fast (options gpg) (modjac m \<sigma> x) K E")
    case (Inl e')
    with that(4) show ?thesis by (simp add: gn_group_def)
  next
    case (Inr D)
    have "update_params (params gpg) (numels \<sigma> (params gpg)) D \<sigma> = (Inr (), \<sigma>')"
      using that(4) Inr by (simp add: gn_group_def)
    with u[OF that(1,2) gn_solve_dims(3)[OF Inr]] gn_solve_dims(2)[OF Inr] that(3) Inr
    show ?thesis by simp
  qed
  have a: "\<sigma>' = \<sigma>" if "trainable_first \<sigma> (params pg)" "ncols E = 1"
    "lm_group m x E K pg \<sigma> = (Inl e, \<sigma>')"
  proof (cases "lm_solve (options pg) (modjac m \<sigma> x) K E")
    case (Inl e')
    with that show ?thesis by (simp add: lm_group_def)
  next
    case (Inr D)
    have "ncols D = 1" using lm_solve_dims(2)[OF Inr] that by simp
    moreover have "update_params (params pg) (numels \<sigma> (params pg)) D \<sigma> = (Inl e, \<sigma>')"
      using that Inr by (simp add: lm_group_def)
    ultimately show ?thesis using that(1) by (rule update_params_trainable_first[rotated])
  qed
  have b: "\<sigma>' = \<sigma>" if "trainable_first \<sigma> (params gpg)" "ncols E = 1"
    "gn_group la fast m x E K gpg \<sigma> = (Inl e, \<sigma>')"
  proof (cases "gn_solve la fast (options gpg) (modjac m \<sigma> x) K E")
    case (Inl e')
    with that show ?thesis by (simp add: gn_group_def)
  next
    case (Inr D)
    have "ncols D = 1" using gn_solve_dims(2)[OF Inr] that by simp
    moreover have "update_params (params gpg) (numels \<sigma> (params gpg)) D \<sigma> = (Inl e, \<sigma>')"
      using that Inr by (simp add: gn_group_def)
    ultimately show ?thesis using that(1) by (rule update_params_trainable_first[rotated])
  qed
  have rest: "(lm_solve (options pg) (modjac m \<sigma> x) K E = Inl e
      \<longrightarrow> lm_group m x E K pg \<sigma> = (Inl e, \<sigma>))
   \<and> (gn_solve la fast (options gpg) (modjac m \<sigma> x) K E = Inl e
      \<longrightarrow> gn_group la fast m x E K gpg \<sigma> = (Inl e, \<sigma>))
   \<and> (lm_matrix opts J = Inr A \<longrightarrow> weighted_gradient J K E = Inr b \<longrightarrow> cholesky A = Inl e
      \<longrightarrow> lm_solve opts J K E = Inl e)
   \<and> (lm_param_groups lm = [pg] \<longrightarrow> residual (lm_model lm) \<sigma> x targets = Inr E
      \<longrightarrow> lm_solve (options pg) (modjac (lm_model lm) \<sigma> x) (kernel_weight (lm_kernel lm) E) E = Inl e
      \<longrightarrow> LevenbergMarquardt_step lm x targets \<sigma> = (Inl e, \<sigma>))
   \<and> (gn_param_groups gn = [gpg] \<longrightarrow> residual (gn_model gn) \<sigma> x targets = Inr E
      \<longrightarrow> gn_solve la (gn_fast gn) (options gpg) (modjac (gn_model gn) \<sigma> x)
            (kernel_weight (gn_kernel gn) E) E = Inl e
      \<longrightarrow> GaussNewton_step la gn x targets \<sigma> = (Inl e, \<sigma>))"
    by (simp add: lm_group_def gn_group_def lm_solve_def LevenbergMarquardt_step_def
        GaussNewton_step_def finish_step_def)
  show ?thesis
    using rest a b c d by blast
qed


theorem solver_failure_and_group_atomicity_witness:
  "lm_solve \<lparr>damping = 3, clamp_min = 0, clamp_max = 10 ^ 32\<rparr>
       (modjac (scalar_model [0, 1] 0) scalar_store ()) (col [1]) (col [- 2])
     = Inl (LinAlgError ''linalg.cholesky: the input is not positive-definite'')
   \<and> trainable_first scalar_store [1, 0]
   \<and> LevenbergMarquardt_step
        \<lparr>lm_model = scalar_model [0, 1] 0, lm_kernel = identity_kernel,
         lm_param_groups = [\<lparr>params = [1, 0],
            options = \<lparr>damping = 3, clamp_min = 0, clamp_max = 10 ^ 32\<rparr>\<rparr>]\<rparr>
        () (Some (Tuple [scalar_tensor 0 False])) scalar_store
     = (Inl (LinAlgError ''linalg.cholesky: the input is not positive-definite''), scalar_store)
   \<and> GaussNewton_step raising_linalg (gn_over (scalar_model [0, 1] 0) False [[1, 0]])
        () (Some (Tuple [scalar_tensor 0 False])) scalar_store
     = (Inl (LinAlgError ''linalg.pinv: the algorithm failed to converge''), scalar_store)
   \<and> lm_group (scalar_model [0, 1] 1) () (col [- 5]) (col [1])
        \<lparr>params = [1, 0], options = lm_defaults 3\<rparr> scalar_store
     = (Inr (), scalar_store(1 := scalar_tensor (15 / 4) True))
   \<and> (\<exists>D. lm_solve (lm_defaults 3) (modjac (scalar_model [0, 1] 1) scalar_store ())
              (col [1]) (col [- 5]) = Inr D
          \<and> scalar_store(1 := scalar_tensor (15 / 4) True)
              = spec_update scalar_store [1, 0] (concat (entries D)))"
proof -
  let ?m1 = "scalar_model [0, 1] 1"
  let ?pg1 = "\<lparr>params = [1, 0], options = lm_defaults 3\<rparr>"
  have ok: "lm_group ?m1 () (col [- 5]) (col [1]) ?pg1 scalar_store
      = (Inr (), scalar_store(1 := scalar_tensor (15 / 4) True))"
    by (simp add: step_defs tensor_defs matrix_defs example_defs)
  have di: "distinct (params ?pg1)" "ncols (col [- 5]) = 1" "params ?pg1 = [1, 0]"
    "options ?pg1 = lm_defaults 3"
    by (simp_all add: col_def)
  note T3 = solver_failure_and_group_atomicity
    [where pg = ?pg1 and \<sigma> = scalar_store and x = "()" and m = ?m1
       and E = "col [- 5]" and K = "col [1]"
       and \<sigma>' = "scalar_store(1 := scalar_tensor (15 / 4) True)", unfolded di(3,4)]
  let ?m = "scalar_model [0, 1] 0"
  let ?o = "\<lparr>damping = 3, clamp_min = 0, clamp_max = 10 ^ 32\<rparr>"
  let ?pg = "\<lparr>params = [1, 0], options = ?o\<rparr>"
  let ?gpg = "\<lparr>params = [1, 0], options = \<lparr>rcond = None, driver = None\<rparr>\<rparr>"
  let ?lm = "\<lparr>lm_model = ?m, lm_kernel = identity_kernel, lm_param_groups = [?pg]\<rparr>"
  let ?gn = "gn_over ?m False [[1, 0]]"
  let ?tg = "Some (Tuple [scalar_tensor 0 False])"
  let ?ce = "LinAlgError ''linalg.cholesky: the input is not positive-definite''"
  let ?pe = "LinAlgError ''linalg.pinv: the algorithm failed to converge''"
  have r: "residual ?m scalar_store () ?tg = Inr (col [- 2])"
    by (simp add: step_defs tensor_defs example_defs)
  have k: "kernel_weight identity_kernel (col [- 2]) = col [1]"
    by (simp add: kernel_weight_def identity_kernel_def col_def)
  have j: "modjac ?m scalar_store () = \<lparr>nrows = 1, ncols = 1, entries = [[0]]\<rparr>"
    by (simp add: step_defs tensor_defs example_defs)
  have ls: "lm_solve ?o (modjac ?m scalar_store ()) (col [1]) (col [- 2]) = Inl ?ce"
    unfolding j by (simp add: step_defs tensor_defs matrix_defs)
  have gs: "gn_solve raising_linalg False \<lparr>rcond = None, driver = None\<rparr>
      (modjac ?m scalar_store ()) (col [1]) (col [- 2]) = Inl ?pe"
    unfolding j by (simp add: step_defs tensor_defs matrix_defs raising_linalg_def)
  have tf: "trainable_first scalar_store [1, 0]"
    by (simp add: trainable_first_def scalar_store_def scalar_tensor_def)
  have sel: "lm_model ?lm = ?m" "lm_kernel ?lm = identity_kernel" "lm_param_groups ?lm = [?pg]"
    "options ?pg = ?o" "params ?pg = [1, 0]"
    "gn_model ?gn = ?m" "gn_kernel ?gn = identity_kernel" "gn_fast ?gn = False"
    "gn_param_groups ?gn = [?gpg]" "options ?gpg = \<lparr>rcond = None, driver = None\<rparr>"
    by (simp_all add: gn_over_def)
  note T1 = solver_failure_and_group_atomicity
    [where lm = ?lm and pg = ?pg and \<sigma> = scalar_store and x = "()" and targets = ?tg
       and E = "col [- 2]" and e = ?ce, unfolded sel k]
  note T2 = solver_failure_and_group_atomicity
    [where gn = ?gn and gpg = ?gpg and \<sigma> = scalar_store and x = "()" and targets = ?tg
       and E = "col [- 2]" and e = ?pe and la = raising_linalg, unfolded sel k]
  from T1 r ls have "LevenbergMarquardt_step ?lm () ?tg scalar_store = (Inl ?ce, scalar_store)"
    by blast
  moreover from T2 r gs
  have "GaussNewton_step raising_linalg ?gn () ?tg scalar_store = (Inl ?pe, scalar_store)"
    by blast
  moreover from T3 tf di(1,2) ok
  have "\<exists>D. lm_solve (lm_defaults 3) (modjac ?m1 scalar_store ()) (col [1]) (col [- 5]) = Inr D
          \<and> scalar_store(1 := scalar_tensor (15 / 4) True)
              = spec_update scalar_store [1, 0] (concat (entries D))"
    unfolding di(3) by blast
  ultimately show ?thesis using ls tf ok by simp
qed




subsection \<open>The loop over the parameter groups\<close>

text \<open>
  C10. The residual \<open>E\<close> and the kernel weights are computed once, from the store
  \<open>\<sigma>\<close> of before the call, and are used for every group; the Jacobian is computed
  for each group from the store as the earlier groups have left it.
\<close>

theorem residual_and_weights_from_before_the_loop:
  "(residual (gn_model gn) \<sigma> x targets = Inr E
      \<longrightarrow> gn_param_groups gn = pgs @ pg # rest
      \<longrightarrow> for_groups (gn_group la (gn_fast gn) (gn_model gn) x E (kernel_weight (gn_kernel gn) E))
            pgs \<sigma> = (Inr (), sg)
      \<longrightarrow> GaussNewton_step la gn x targets \<sigma>
          = finish_step (gn_model gn) (gn_kernel gn) x targets
              (case gn_solve la (gn_fast gn) (options pg) (modjac (gn_model gn) sg x)
                      (kernel_weight (gn_kernel gn) E) E of
                 Inl e \<Rightarrow> (Inl e, sg)
               | Inr D \<Rightarrow>
                   (case update_params (params pg) (numels sg (params pg)) D sg of
                      (Inl e, sg') \<Rightarrow> (Inl e, sg')
                    | (Inr u, sg') \<Rightarrow>
                        for_groups (gn_group la (gn_fast gn) (gn_model gn) x E
                                      (kernel_weight (gn_kernel gn) E)) rest sg')))
   \<and> (residual (lm_model lm) \<sigma> x targets = Inr E
      \<longrightarrow> lm_param_groups lm = lpgs @ lpg # lrest
      \<longrightarrow> for_groups (lm_group (lm_model lm) x E (kernel_weight (lm_kernel lm) E)) lpgs \<sigma>
            = (Inr (), sl)
      \<longrightarrow> LevenbergMarquardt_step lm x targets \<sigma>
          = finish_step (lm_model lm) (lm_kernel lm) x targets
              (case lm_solve (options lpg) (modjac (lm_model lm) sl x)
                      (kernel_weight (lm_kernel lm) E) E of
                 Inl e \<Rightarrow> (Inl e, sl)
               | Inr D \<Rightarrow>
                   (case update_params (params lpg) (numels sl (params lpg)) D sl of
                      (Inl e, sl') \<Rightarrow> (Inl e, sl')
                    | (Inr u, sl') \<Rightarrow>
                        for_groups (lm_group (lm_model lm) x E (kernel_weight (lm_kernel lm) E))
                          lrest sl')))"
  by (auto simp add: GaussNewton_step_def LevenbergMarquardt_step_def for_groups_append
      gn_group_def lm_group_def Let_def split: sum.splits prod.splits)

theorem residual_and_weights_from_before_the_loop_witness:
  "residual square_model square_store () (Some (Tuple [scalar_tensor 9 False])) = Inr (col [8])
   \<and> modjac square_model square_store () = \<lparr>nrows = 1, ncols = 1, entries = [[2]]\<rparr>
   \<and> modjac square_model (square_store(1 := scalar_tensor 2 True)) ()
       = \<lparr>nrows = 1, ncols = 1, entries = [[4]]\<rparr>
   \<and> lm_solve (lm_defaults 3) \<lparr>nrows = 1, ncols = 1, entries = [[4]]\<rparr> (col [1]) (col [8])
       = Inr (col [1 / 2])
   \<and> LevenbergMarquardt_step (lm_over square_model [[1], [2]]) ()
       (Some (Tuple [scalar_tensor 9 False])) square_store
     = (Inr 25, square_store(1 := scalar_tensor 2 True, 2 := scalar_tensor (1 / 2) True))
   \<and> GaussNewton_step scalar_linalg (gn_over square_model False [[1], [2]]) ()
       (Some (Tuple [scalar_tensor 9 False])) square_store
     = (Inr 256, square_store(1 := scalar_tensor 5 True, 2 := scalar_tensor (4 / 5) True))"
proof -
  let ?tg = "Some (Tuple [scalar_tensor 9 False])"
  let ?lm = "lm_over square_model [[1], [2]]"
  let ?gn = "gn_over square_model False [[1], [2]]"
  let ?g = "\<lambda>ps. \<lparr>params = ps, options = lm_defaults 3\<rparr>"
  let ?h = "\<lambda>ps. \<lparr>params = ps, options = \<lparr>rcond = None, driver = None\<rparr>\<rparr>"
  have r: "residual square_model square_store () ?tg = Inr (col [8])"
    by (simp add: step_defs tensor_defs example_defs)
  have k: "kernel_weight identity_kernel (col [8]) = col [1]"
    by (simp add: kernel_weight_def identity_kernel_def col_def)
  have j0: "modjac square_model square_store () = \<lparr>nrows = 1, ncols = 1, entries = [[2]]\<rparr>"
    by (simp add: step_defs tensor_defs example_defs)
  have j1: "modjac square_model (square_store(1 := scalar_tensor 2 True)) ()
       = \<lparr>nrows = 1, ncols = 1, entries = [[4]]\<rparr>"
    by (simp add: step_defs tensor_defs example_defs)
  have j2: "modjac square_model (square_store(1 := scalar_tensor 5 True)) ()
       = \<lparr>nrows = 1, ncols = 1, entries = [[10]]\<rparr>"
    by (simp add: step_defs tensor_defs example_defs)
  have s1: "lm_solve (lm_defaults 3) \<lparr>nrows = 1, ncols = 1, entries = [[4]]\<rparr> (col [1]) (col [8])
       = Inr (col [1 / 2])"
    by (simp add: step_defs tensor_defs matrix_defs example_defs)
  have l1: "for_groups (lm_group square_model () (col [8]) (col [1])) [?g [1]] square_store
       = (Inr (), square_store(1 := scalar_tensor 2 True))"
    by (simp add: step_defs tensor_defs matrix_defs example_defs)
  have g1: "for_groups (gn_group scalar_linalg False square_model () (col [8]) (col [1]))
        [?h [1]] square_store
       = (Inr (), square_store(1 := scalar_tensor 5 True))"
    by (simp add: step_defs tensor_defs matrix_defs example_defs)
  have ml: "lm_model ?lm = square_model" "lm_kernel ?lm = identity_kernel"
      "lm_param_groups ?lm = [?g [1]] @ ?g [2] # []"
    and mg: "gn_model ?gn = square_model" "gn_kernel ?gn = identity_kernel" "gn_fast ?gn = False"
      "gn_param_groups ?gn = [?h [1]] @ ?h [2] # []"
    by (simp_all add: lm_over_def gn_over_def)
  note T = residual_and_weights_from_before_the_loop
    [where gn = ?gn and lm = ?lm and \<sigma> = square_store and x = "()" and targets = ?tg
       and E = "col [8]" and la = scalar_linalg
       and pgs = "[?h [1]]" and pg = "?h [2]" and rest = "[]"
       and lpgs = "[?g [1]]" and lpg = "?g [2]" and lrest = "[]"
       and sl = "square_store(1 := scalar_tensor 2 True)"
       and sg = "square_store(1 := scalar_tensor 5 True)", unfolded ml mg k]
  from T r l1 have L: "LevenbergMarquardt_step ?lm () ?tg square_store
      = finish_step square_model identity_kernel () ?tg
          (case lm_solve (options (?g [2])) (modjac square_model (square_store(1 := scalar_tensor 2 True)) ())
                  (col [1]) (col [8]) of
             Inl e \<Rightarrow> (Inl e, square_store(1 := scalar_tensor 2 True))
           | Inr D \<Rightarrow>
               (case update_params (params (?g [2]))
                       (numels (square_store(1 := scalar_tensor 2 True)) (params (?g [2]))) D
                       (square_store(1 := scalar_tensor 2 True)) of
                  (Inl e, sl') \<Rightarrow> (Inl e, sl')
                | (Inr u, sl') \<Rightarrow> for_groups (lm_group square_model () (col [8]) (col [1])) [] sl'))"
    by blast
  from T r g1 have G: "GaussNewton_step scalar_linalg ?gn () ?tg square_store
      = finish_step square_model identity_kernel () ?tg
          (case gn_solve scalar_linalg False (options (?h [2]))
                  (modjac square_model (square_store(1 := scalar_tensor 5 True)) ())
                  (col [1]) (col [8]) of
             Inl e \<Rightarrow> (Inl e, square_store(1 := scalar_tensor 5 True))
           | Inr D \<Rightarrow>
               (case update_params (params (?h [2]))
                       (numels (square_store(1 := scalar_tensor 5 True)) (params (?h [2]))) D
                       (square_store(1 := scalar_tensor 5 True)) of
                  (Inl e, sg') \<Rightarrow> (Inl e, sg')
                | (Inr u, sg') \<Rightarrow>
                    for_groups (gn_group scalar_linalg False square_model () (col [8]) (col [1])) [] sg'))"
    by blast
  have L': "LevenbergMarquardt_step ?lm () ?tg square_store
     = (Inr 25, square_store(1 := scalar_tensor 2 True, 2 := scalar_tensor (1 / 2) True))"
    unfolding L j1
    by (simp add: step_defs tensor_defs matrix_defs example_defs)
  have G': "GaussNewton_step scalar_linalg ?gn () ?tg square_store
     = (Inr 256, square_store(1 := scalar_tensor 5 True, 2 := scalar_tensor (4 / 5) True))"
    unfolding G j2
    by (simp add: step_defs tensor_defs matrix_defs example_defs)
  show ?thesis using r j0 j1 s1 L' G' by simp
qed

subsection \<open>The fixed point at a zero residual\<close>

text \<open>
  C9. When the residual before the update is the zero vector, every solve that
  returns gives the zero vector (for \<^verbatim>\<open>lstsq\<close> under the contract \<open>lstsq_zero\<close> of
  the library routine), the step call leaves every parameter as it was, and a loss
  that is returned is the loss of the residual of before the update, which is 0 for the
  default kernel. All tensors of the store are assumed to hold as many entries as their
  shape says.
\<close>

theorem zero_residual_fixed_point:
  assumes "is_zero E" and "\<forall>a. wf_tensor (\<sigma> a)"
  shows "(residual (gn_model gn) \<sigma> x targets = Inr E \<and> (gn_fast gn \<longrightarrow> lstsq_zero la)
          \<longrightarrow> (\<forall>opts J K D. gn_solve la (gn_fast gn) opts J K E = Inr D \<longrightarrow> is_zero D)
            \<and> snd (GaussNewton_step la gn x targets \<sigma>) = \<sigma>
            \<and> (\<forall>l. fst (GaussNewton_step la gn x targets \<sigma>) = Inr l
                   \<longrightarrow> l = loss (gn_kernel gn) E))
   \<and> (residual (lm_model lm) \<sigma> x targets = Inr E
          \<longrightarrow> (\<forall>opts J K D. lm_solve opts J K E = Inr D \<longrightarrow> is_zero D)
            \<and> snd (LevenbergMarquardt_step lm x targets \<sigma>) = \<sigma>
            \<and> (\<forall>l. fst (LevenbergMarquardt_step lm x targets \<sigma>) = Inr l
                   \<longrightarrow> l = loss (lm_kernel lm) E))
   \<and> loss identity_kernel E = 0"
proof -
  have wf: "wf_tensor (\<sigma> a)" for a using assms(2) by simp
  have gn: "(\<forall>opts J K D. gn_solve la (gn_fast gn) opts J K E = Inr D \<longrightarrow> is_zero D)
      \<and> snd (GaussNewton_step la gn x targets \<sigma>) = \<sigma>
      \<and> (\<forall>l. fst (GaussNewton_step la gn x targets \<sigma>) = Inr l \<longrightarrow> l = loss (gn_kernel gn) E)"
    if r: "residual (gn_model gn) \<sigma> x targets = Inr E" and la: "gn_fast gn \<longrightarrow> lstsq_zero la"
  proof -
    note rows = residual_column(2)[OF r]
    have z: "is_zero D" if "gn_solve la (gn_fast gn) opts J K E = Inr D" for opts J K D
      using that assms(1) rows la by (rule gn_solve_zero)
    have g: "snd (gn_group la (gn_fast gn) (gn_model gn) x E K pg \<sigma>) = \<sigma>" for K pg
    proof (cases "gn_solve la (gn_fast gn) (options pg) (modjac (gn_model gn) \<sigma> x) K E")
      case (Inl e)
      then show ?thesis by (simp add: gn_group_def)
    next
      case (Inr D)
      have "snd (update_params (params pg) (numels \<sigma> (params pg)) D \<sigma>) = \<sigma>"
        using gn_solve_dims(3)[OF Inr] z[OF Inr] wf by (rule update_params_zero)
      with Inr show ?thesis by (simp add: gn_group_def)
    qed
    let ?r = "for_groups (gn_group la (gn_fast gn) (gn_model gn) x E (kernel_weight (gn_kernel gn) E))
        (gn_param_groups gn) \<sigma>"
    have f: "snd ?r = \<sigma>" using g by (rule for_groups_fixed)
    have s: "GaussNewton_step la gn x targets \<sigma>
        = finish_step (gn_model gn) (gn_kernel gn) x targets ?r"
      using r by (simp add: GaussNewton_step_def)
    show ?thesis
      unfolding s using z finish_step_fixed[OF f r] by blast
  qed
  have lm: "(\<forall>opts J K D. lm_solve opts J K E = Inr D \<longrightarrow> is_zero D)
      \<and> snd (LevenbergMarquardt_step lm x targets \<sigma>) = \<sigma>
      \<and> (\<forall>l. fst (LevenbergMarquardt_step lm x targets \<sigma>) = Inr l \<longrightarrow> l = loss (lm_kernel lm) E)"
    if r: "residual (lm_model lm) \<sigma> x targets = Inr E"
  proof -
    note rows = residual_column(2)[OF r]
    have z: "is_zero D" if "lm_solve opts J K E = Inr D" for opts J K D
      using that assms(1) rows by (rule lm_solve_zero)
    have g: "snd (lm_group (lm_model lm) x E K pg \<sigma>) = \<sigma>" for K pg
    proof (cases "lm_solve (options pg) (modjac (lm_model lm) \<sigma> x) K E")
      case (Inl e)
      then show ?thesis by (simp add: lm_group_def)
    next
      case (Inr D)
      have "snd (update_params (params pg) (numels \<sigma> (params pg)) D \<sigma>) = \<sigma>"
        using lm_solve_dims(3)[OF Inr] z[OF Inr] wf by (rule update_params_zero)
      with Inr show ?thesis by (simp add: lm_group_def)
    qed
    let ?r = "for_groups (lm_group (lm_model lm) x E (kernel_weight (lm_kernel lm) E))
        (lm_param_groups lm) \<sigma>"
    have f: "snd ?r = \<sigma>" using g by (rule for_groups_fixed)
    have s: "LevenbergMarquardt_step lm x targets \<sigma>
        = finish_step (lm_model lm) (lm_kernel lm) x targets ?r"
      using r by (simp add: LevenbergMarquardt_step_def)
    show ?thesis
      unfolding s using z finish_step_fixed[OF f r] by blast
  qed
  have "list_all (\<lambda>v. v = 0) (concat (entries (square_mat E)))"
    using assms(1) by (auto simp add: is_zero_def square_mat_def list_all_iff)
  then have "loss identity_kernel E = 0"
    by (simp add: loss_def identity_kernel_def sum_list_zeros)
  with gn lm show ?thesis by blast
qed


theorem zero_residual_fixed_point_witness:
  "is_zero (col [0]) \<and> (\<forall>a. wf_tensor (scalar_store a)) \<and> lstsq_zero scalar_linalg
   \<and> residual (scalar_model [1] 0) scalar_store () (Some (Tuple [scalar_tensor 5 False]))
       = Inr (col [0])
   \<and> lm_solve (lm_defaults 3) (modjac (scalar_model [1] 0) scalar_store ()) (col [1]) (col [0])
       = Inr (col [0])
   \<and> LevenbergMarquardt_step (lm_over (scalar_model [1] 0) [[1]]) ()
        (Some (Tuple [scalar_tensor 5 False])) scalar_store = (Inr 0, scalar_store)
   \<and> GaussNewton_step scalar_linalg (gn_over (scalar_model [1] 0) True [[1]]) ()
        (Some (Tuple [scalar_tensor 5 False])) scalar_store = (Inr 0, scalar_store)
   \<and> GaussNewton_step scalar_linalg (gn_over (scalar_model [1] 0) False [[1]]) ()
        (Some (Tuple [scalar_tensor 5 False])) scalar_store = (Inr 0, scalar_store)"
proof -
  let ?m = "scalar_model [1] 0"
  let ?tg = "Some (Tuple [scalar_tensor 5 False])"
  let ?lm = "lm_over ?m [[1]]"
  have z: "is_zero (col [0])" by (simp add: is_zero_def col_def)
  have w: "\<forall>a. wf_tensor (scalar_store a)"
    by (simp add: scalar_store_def scalar_tensor_def wf_tensor_def numel_def)
  have c: "lstsq_zero scalar_linalg"
    unfolding lstsq_zero_def scalar_linalg_def
    by (auto simp add: wf_mat_def is_zero_def list_all_length)
  have r: "residual ?m scalar_store () ?tg = Inr (col [0])"
    by (simp add: step_defs tensor_defs example_defs)
  have s: "lm_solve (lm_defaults 3) (modjac ?m scalar_store ()) (col [1]) (col [0]) = Inr (col [0])"
    by (simp add: step_defs tensor_defs matrix_defs example_defs)
  have sel: "lm_model ?lm = ?m" "lm_kernel ?lm = identity_kernel"
    "gn_model (gn_over ?m fast [[1]]) = ?m" "gn_kernel (gn_over ?m fast [[1]]) = identity_kernel"
    "gn_fast (gn_over ?m fast [[1]]) = fast" for fast
    by (simp_all add: lm_over_def gn_over_def)
  have l0: "loss identity_kernel (col [0]) = 0"
    by (simp add: loss_def identity_kernel_def square_mat_def col_def)
  note T1 = zero_residual_fixed_point[OF z w, where x = "()" and targets = ?tg and lm = ?lm
      and la = scalar_linalg and gn = "gn_over ?m True [[1]]", unfolded sel l0]
  note T2 = zero_residual_fixed_point[OF z w, where x = "()" and targets = ?tg and lm = ?lm
      and la = scalar_linalg and gn = "gn_over ?m False [[1]]", unfolded sel l0]
  have L: "fst (LevenbergMarquardt_step ?lm () ?tg scalar_store) = Inr 0"
    by (simp add: step_defs tensor_defs matrix_defs example_defs)
  have G: "fst (GaussNewton_step scalar_linalg (gn_over ?m fast [[1]]) () ?tg scalar_store) = Inr 0"
    for fast
    by (simp add: step_defs tensor_defs matrix_defs example_defs)
  from T1 r c
  have "snd (GaussNewton_step scalar_linalg (gn_over ?m True [[1]]) () ?tg scalar_store) = scalar_store"
    "snd (LevenbergMarquardt_step ?lm () ?tg scalar_store) = scalar_store"
    by blast+
  moreover from T2 r
  have "snd (GaussNewton_step scalar_linalg (gn_over ?m False [[1]]) () ?tg scalar_store) = scalar_store"
    by blast
  ultimately show ?thesis
    using z w c r s L G[of True] G[of False] by (simp add: prod_eq_iff)
qed

end
